theory Spec2Isabelle
  imports Main "HOL-Library.Multiset" "HOL-Library.List_Lexorder" "HOL-Library.Char_ord"
begin

section \<open>Python values, exceptions and ordered dictionaries\<close>

text \<open>
  The program is \<^verbatim>\<open>msf_flow_luigi.py\<close>. A Python \<^verbatim>\<open>str\<close> is a \<^typ>\<open>string\<close>
  (code points below 256, ordered by code point: the lexicographic order of
  \<^verbatim>\<open>List_Lexorder\<close> over \<^verbatim>\<open>Char_ord\<close>), a Python \<^verbatim>\<open>int\<close> is an \<^typ>\<open>int\<close>.
  Every exception the program can raise is a value of \<open>error\<close>; a function that may
  raise returns \<open>error + 'a\<close>, with \<open>Inl\<close> for the exception.
\<close>

datatype error = ValueError | OSError | IndexError | KeyError | TypeError

text \<open>The values a record field holds: a string read from a delimited file, the
  integer threshold parsed from the file name, or \<^verbatim>\<open>None\<close>. The numbers the statistics
  functions return are carried as integers: the program stores them and never computes
  with them.\<close>

datatype pyval = PStr string | PInt int | PNone

text \<open>A plume record is an insertion-ordered dictionary from field names to values
  (\<^verbatim>\<open>dict\<close>, \<^verbatim>\<open>OrderedDict\<close>): an association list in insertion order.\<close>

type_synonym plume = "(string \<times> pyval) list"

definition dict_keys :: "plume \<Rightarrow> string list" where
  "dict_keys d = map fst d"

text \<open>\<^verbatim>\<open>k in d\<close>\<close>

definition dict_contains :: "plume \<Rightarrow> string \<Rightarrow> bool" where
  "dict_contains d k = (map_of d k \<noteq> None)"

text \<open>\<^verbatim>\<open>d[k] = v\<close>: an existing key keeps its position, a new key goes last.\<close>

fun dict_setitem :: "plume \<Rightarrow> string \<Rightarrow> pyval \<Rightarrow> plume" where
  "dict_setitem [] k v = [(k, v)]"
| "dict_setitem ((k', v') # d) k v =
     (if k' = k then (k, v) # d else (k', v') # dict_setitem d k v)"

text \<open>\<^verbatim>\<open>d.update(m)\<close>: the items of \<open>m\<close> are stored one by one, in the order of \<open>m\<close>.\<close>

definition dict_update :: "plume \<Rightarrow> plume \<Rightarrow> plume" where
  "dict_update d m = foldl (\<lambda>acc (k, v). dict_setitem acc k v) d m"

subsection \<open>The built-in \<^verbatim>\<open>sorted\<close> with a key that indexes a dictionary\<close>

definition is_str :: "pyval \<Rightarrow> bool" where
  "is_str v = (case v of PStr _ \<Rightarrow> True | _ \<Rightarrow> False)"

definition is_int :: "pyval \<Rightarrow> bool" where
  "is_int v = (case v of PInt _ \<Rightarrow> True | _ \<Rightarrow> False)"

definition str_key :: "string \<Rightarrow> plume \<Rightarrow> string" where
  "str_key k d = (case map_of d k of Some (PStr s) \<Rightarrow> s | _ \<Rightarrow> [])"

definition int_key :: "string \<Rightarrow> plume \<Rightarrow> int" where
  "int_key k d = (case map_of d k of Some (PInt n) \<Rightarrow> n | _ \<Rightarrow> 0)"

text \<open>
  \<^verbatim>\<open>sorted(ds, key=lambda d: d[k])\<close>. Python first computes the key of every element,
  in order, so a dictionary without \<open>k\<close> raises \<^verbatim>\<open>KeyError\<close>. It then sorts stably
  with \<^verbatim>\<open><\<close> on the keys: two strings compare by code point, two integers by value,
  and any other pair (a string with an integer, anything with \<^verbatim>\<open>None\<close>) raises
  \<^verbatim>\<open>TypeError\<close>. A list of fewer than two elements is never compared.
\<close>

definition py_sorted :: "string \<Rightarrow> plume list \<Rightarrow> error + plume list" where
  "py_sorted k ds =
     (case those (map (\<lambda>d. map_of d k) ds) of
        None \<Rightarrow> Inl KeyError
      | Some vs \<Rightarrow>
          if length vs < 2 then Inr ds
          else if list_all is_str vs then Inr (sort_key (str_key k) ds)
          else if list_all is_int vs then Inr (sort_key (int_key k) ds)
          else Inl TypeError)"

section \<open>The logger\<close>

text \<open>
  A logger is the list of records it has received, oldest first. Every core function
  takes \<^verbatim>\<open>logger=None\<close> or a logger and guards each call by
  \<^verbatim>\<open>if logger is not None\<close>. A record keeps the level, the format string and the
  formatted argument.
\<close>

datatype level = INFO | WARNING | CRITICAL

datatype log_arg =
    ArgNone
  | ArgStr string
  | ArgStrs "string list"
  | ArgPlume plume
  | ArgPlumes "plume list"

type_synonym logger = "(level \<times> string \<times> log_arg) list"

definition log_msg :: "logger option \<Rightarrow> level \<Rightarrow> string \<Rightarrow> log_arg \<Rightarrow> logger option" where
  "log_msg logger lvl msg arg =
     (case logger of None \<Rightarrow> None | Some l \<Rightarrow> Some (l @ [(lvl, msg, arg)]))"

section \<open>The collaborators outside the source file\<close>

text \<open>
  \<^verbatim>\<open>WindType(subdir)\<close> of \<^verbatim>\<open>wind_processor.wind_type\<close>: the three methods the
  program calls on it. \<open>alts\<close> is the collection \<^verbatim>\<open>wt.alts()\<close> in the order it
  enumerates; the altitude identifiers are of any linearly ordered type.
\<close>

record 'alt WindType =
  is_unknown :: bool
  type_as_str :: string
  alts :: "'alt list"

text \<open>
  The functions the program imports: \<^verbatim>\<open>os.listdir\<close> (the names in a directory, in
  arbitrary order, \<^verbatim>\<open>OSError\<close> when there is no such directory), the \<^verbatim>\<open>WindType\<close>
  constructor, and \<^verbatim>\<open>compute_wind_stats\<close> and \<^verbatim>\<open>compute_emission_rate\<close> of
  \<^verbatim>\<open>wind_processor.running_windspeed\<close>, called with the plume, the wind
  subdirectory (wind statistics only), the fill value, the wind type, the altitude
  (wind statistics only) and the logger. Each returns a mapping or raises.
\<close>

record 'alt externals =
  listdir :: "string \<Rightarrow> error + string list"
  WindType :: "string \<Rightarrow> 'alt WindType"
  compute_wind_stats ::
    "plume \<Rightarrow> string \<Rightarrow> pyval \<Rightarrow> string \<Rightarrow> 'alt \<Rightarrow> logger option \<Rightarrow> error + plume"
  compute_emission_rate ::
    "plume \<Rightarrow> string \<Rightarrow> pyval \<Rightarrow> logger option \<Rightarrow> error + plume"

text \<open>
  The \<^verbatim>\<open>csv\<close> module, over file contents of type \<open>'c\<close>: \<open>dict_reader b c\<close> is
  \<^verbatim>\<open>list(DictReader(f, skipinitialspace=b))\<close> for a file \<open>f\<close> of content \<open>c\<close>, and
  \<open>writer_output rows\<close> is the content of a file to which \<^verbatim>\<open>csv.writer\<close> has written
  \<open>rows\<close>, one \<^verbatim>\<open>writerow\<close> call each. The rows read have field names for keys;
  the extra key \<^verbatim>\<open>None\<close> that \<^verbatim>\<open>DictReader\<close> gives a row longer than the header is
  not part of the model.
\<close>

record 'c csv_module =
  dict_reader :: "bool \<Rightarrow> 'c \<Rightarrow> plume list"
  writer_output :: "pyval list list \<Rightarrow> 'c"

text \<open>The regular files of the file system: a path has a content or is no file.\<close>

type_synonym 'c fs = "string \<Rightarrow> 'c option"

text \<open>\<^verbatim>\<open>os.path.join(a, b)\<close> (POSIX).\<close>

definition path_join :: "string \<Rightarrow> string \<Rightarrow> string" where
  "path_join a b =
     (if take 1 b = ''/'' then b
      else if a = [] \<or> last a = CHR ''/'' then a @ b
      else a @ ''/'' @ b)"

text \<open>\<^verbatim>\<open>f.startswith('.')\<close>\<close>

definition startswith_dot :: "string \<Rightarrow> bool" where
  "startswith_dot f = (take 1 f = ''.'')"

section \<open>\<^verbatim>\<open>process_plume\<close>\<close>

text \<open>\<^verbatim>\<open>for alt in alts: plume.update(compute_wind_stats(...))\<close>\<close>

fun alts_loop ::
  "'alt externals \<Rightarrow> string \<Rightarrow> pyval \<Rightarrow> string \<Rightarrow> logger option \<Rightarrow> 'alt list \<Rightarrow> plume
     \<Rightarrow> error + plume" where
  "alts_loop ext winds_subdir fill wind_type logger [] plume = Inr plume"
| "alts_loop ext winds_subdir fill wind_type logger (alt # rest) plume =
     (case compute_wind_stats ext plume winds_subdir fill wind_type alt logger of
        Inl err \<Rightarrow> Inl err
      | Inr wind_stats \<Rightarrow>
          alts_loop ext winds_subdir fill wind_type logger rest (dict_update plume wind_stats))"

text \<open>The loop over the sorted, non-hidden subdirectories; its state is the plume, the
  emission statistics gathered so far and the logger.\<close>

fun subdirs_loop ::
  "('alt::linorder) externals \<Rightarrow> string \<Rightarrow> pyval \<Rightarrow> string list \<Rightarrow> plume \<Rightarrow> plume
     \<Rightarrow> logger option \<Rightarrow> (error + plume \<times> plume) \<times> logger option" where
  "subdirs_loop ext winds_dir fill [] plume emission_stats logger =
     (Inr (plume, emission_stats), logger)"
| "subdirs_loop ext winds_dir fill (subdir # rest) plume emission_stats logger =
     (let logger1 = log_msg logger INFO ''processing for winds in {}'' (ArgStr subdir);
          wt = WindType ext subdir
      in if \<not> is_unknown wt then
           (case alts_loop ext (path_join winds_dir subdir) fill (type_as_str wt) logger1
                   (sort (alts wt)) plume of
              Inl err \<Rightarrow> (Inl err, logger1)
            | Inr plume1 \<Rightarrow>
                (case compute_emission_rate ext plume1 (type_as_str wt) fill logger1 of
                   Inl err \<Rightarrow> (Inl err, logger1)
                 | Inr rate \<Rightarrow>
                     subdirs_loop ext winds_dir fill rest plume1
                       (dict_update emission_stats rate) logger1))
         else subdirs_loop ext winds_dir fill rest plume emission_stats logger1)"

definition process_plume ::
  "('alt::linorder) externals \<Rightarrow> plume \<Rightarrow> string \<Rightarrow> pyval \<Rightarrow> logger option
     \<Rightarrow> (error + plume) \<times> logger option" where
  "process_plume ext plume winds_dir fill logger =
     (let logger0 = log_msg (log_msg logger WARNING ''processing plume {}'' (ArgPlume plume))
                      INFO ''{}'' (ArgPlume plume)
      in case listdir ext winds_dir of
           Inl err \<Rightarrow> (Inl err, logger0)
         | Inr names \<Rightarrow>
             (case subdirs_loop ext winds_dir fill
                     (sort (filter (\<lambda>f. \<not> startswith_dot f) names)) plume [] logger0 of
                (Inl err, logger1) \<Rightarrow> (Inl err, logger1)
              | (Inr (plume1, emission_stats), logger1) \<Rightarrow>
                  (let plume2 = dict_update plume1 emission_stats
                   in (Inr plume2, log_msg logger1 INFO ''Computed plume={}'' (ArgPlume plume2)))))"

section \<open>\<^verbatim>\<open>get_minppmm_from_fname\<close>\<close>

text \<open>\<^verbatim>\<open>\d\<close> on code points below 256 is one of the ten ASCII digits.\<close>

definition is_digit :: "char \<Rightarrow> bool" where
  "is_digit c = (c \<in> set ''0123456789'')"

text \<open>\<^verbatim>\<open>int(s)\<close> on a non-empty string of digits (an unbounded integer; the
  interpreter's configurable limit on the number of digits is not modelled).\<close>

definition int_of_digits :: "string \<Rightarrow> int" where
  "int_of_digits ds = foldl (\<lambda>n c. 10 * n + (of_char c - 48)) 0 ds"

text \<open>The pattern \<^verbatim>\<open>minppmm(\d+)\<close> matched at the start of \<open>s\<close>: the group is the
  longest run of digits after the literal, and there is no match when it is empty.\<close>

definition match_here :: "string \<Rightarrow> string option" where
  "match_here s =
     (if take 7 s = ''minppmm'' \<and> takeWhile is_digit (drop 7 s) \<noteq> []
      then Some (takeWhile is_digit (drop 7 s)) else None)"

text \<open>\<^verbatim>\<open>pattern.search(fname)\<close>: the match at the leftmost position that has one;
  the result is its group 1.\<close>

fun re_search :: "string \<Rightarrow> string option" where
  "re_search [] = None"
| "re_search (c # cs) =
     (case match_here (c # cs) of Some g \<Rightarrow> Some g | None \<Rightarrow> re_search cs)"

definition get_minppmm_from_fname :: "string \<Rightarrow> error + int" where
  "get_minppmm_from_fname fname =
     (case re_search fname of
        None \<Rightarrow> Inl ValueError
      | Some g \<Rightarrow> Inr (int_of_digits g))"

section \<open>\<^verbatim>\<open>dict_reader_plus_update\<close> and \<^verbatim>\<open>process_plumes\<close>\<close>

text \<open>\<^verbatim>\<open>open(fname, 'r')\<close> raises \<^verbatim>\<open>OSError\<close> when there is no such file; every row
  read is updated with \<open>d\<close>.\<close>

definition dict_reader_plus_update ::
  "'c csv_module \<Rightarrow> 'c fs \<Rightarrow> string \<Rightarrow> plume \<Rightarrow> error + plume list" where
  "dict_reader_plus_update csv fs fname d =
     (case fs fname of
        None \<Rightarrow> Inl OSError
      | Some content \<Rightarrow> Inr (map (\<lambda>row. dict_update row d) (dict_reader csv True content)))"

text \<open>The list comprehension over \<open>flist\<close>, chained: for each file the threshold is
  parsed from the name before the file is opened.\<close>

fun load_plumes ::
  "'c csv_module \<Rightarrow> 'c fs \<Rightarrow> string \<Rightarrow> string list \<Rightarrow> error + plume list" where
  "load_plumes csv fs minppmm_key [] = Inr []"
| "load_plumes csv fs minppmm_key (fname # rest) =
     (case get_minppmm_from_fname fname of
        Inl err \<Rightarrow> Inl err
      | Inr minppmm \<Rightarrow>
          (case dict_reader_plus_update csv fs fname [(minppmm_key, PInt minppmm)] of
             Inl err \<Rightarrow> Inl err
           | Inr rows \<Rightarrow>
               (case load_plumes csv fs minppmm_key rest of
                  Inl err \<Rightarrow> Inl err
                | Inr others \<Rightarrow> Inr (rows @ others))))"

text \<open>\<^verbatim>\<open>[process_plume(plume, winds_dir, fill=fill, logger=logger) for plume in plumes]\<close>\<close>

fun process_each ::
  "('alt::linorder) externals \<Rightarrow> string \<Rightarrow> pyval \<Rightarrow> plume list \<Rightarrow> logger option
     \<Rightarrow> (error + plume list) \<times> logger option" where
  "process_each ext winds_dir fill [] logger = (Inr [], logger)"
| "process_each ext winds_dir fill (plume # rest) logger =
     (case process_plume ext plume winds_dir fill logger of
        (Inl err, logger1) \<Rightarrow> (Inl err, logger1)
      | (Inr plume_ext, logger1) \<Rightarrow>
          (case process_each ext winds_dir fill rest logger1 of
             (Inl err, logger2) \<Rightarrow> (Inl err, logger2)
           | (Inr rest_ext, logger2) \<Rightarrow> (Inr (plume_ext # rest_ext), logger2)))"

text \<open>\<^verbatim>\<open>plumes[0]\<close> and \<^verbatim>\<open>list(plumes[0].keys())[0]\<close> raise \<^verbatim>\<open>IndexError\<close> on an empty
  list.\<close>

definition process_plumes ::
  "('alt::linorder) externals \<Rightarrow> 'c csv_module \<Rightarrow> 'c fs \<Rightarrow> string list \<Rightarrow> string \<Rightarrow> pyval
     \<Rightarrow> string \<Rightarrow> logger option \<Rightarrow> (error + plume list) \<times> logger option" where
  "process_plumes ext csv fs flist winds_dir fill minppmm_key logger =
     (let logger0 = log_msg logger INFO ''flist={}'' (ArgStrs flist)
      in case load_plumes csv fs minppmm_key flist of
           Inl err \<Rightarrow> (Inl err, logger0)
         | Inr plumes \<Rightarrow>
             (case plumes of
                [] \<Rightarrow> (Inl IndexError, logger0)
              | first # _ \<Rightarrow>
                  (case dict_keys first of
                     [] \<Rightarrow> (Inl IndexError, logger0)
                   | sort_by_key # _ \<Rightarrow>
                       (case py_sorted sort_by_key plumes of
                          Inl err \<Rightarrow> (Inl err, logger0)
                        | Inr sorted_plumes \<Rightarrow>
                            (case process_each ext winds_dir fill sorted_plumes
                                    (log_msg logger0 INFO ''plumes={}'' (ArgPlumes sorted_plumes)) of
                               (Inl err, logger1) \<Rightarrow> (Inl err, logger1)
                             | (Inr plumes_ext, logger1) \<Rightarrow>
                                 (Inr plumes_ext,
                                  log_msg logger1 INFO ''Computed plumes={}''
                                    (ArgPlumes plumes_ext)))))))"

section \<open>\<^verbatim>\<open>insert_plumes_in_file\<close>\<close>

text \<open>The calls the function makes on the file system, in the order it makes them.\<close>

datatype fs_op =
    IsFile string
  | OpenRead string
  | CopyFile string string
  | OpenWrite string

text \<open>What a call leaves behind: the exception that escaped it (if any), the files, the
  file-system calls it made and the logger.\<close>

record 'c outcome =
  raised :: "error option"
  files :: "'c fs"
  trace :: "fs_op list"
  logged :: "logger option"

text \<open>
  \<^verbatim>\<open>DictWriter(fout, fieldnames=field_names)\<close> keeps the defaults
  \<^verbatim>\<open>restval=''\<close> and \<^verbatim>\<open>extrasaction='raise'\<close>: \<^verbatim>\<open>writerow\<close> raises \<^verbatim>\<open>ValueError\<close>
  when the dictionary has a key that is no field name, and otherwise writes, for each
  field name in turn, the dictionary's value or the empty string.
\<close>

definition row_values :: "string list \<Rightarrow> plume \<Rightarrow> pyval list" where
  "row_values fieldnames rowdict =
     map (\<lambda>key. case map_of rowdict key of Some v \<Rightarrow> v | None \<Rightarrow> PStr []) fieldnames"

definition dict_to_list :: "string list \<Rightarrow> plume \<Rightarrow> error + pyval list" where
  "dict_to_list fieldnames rowdict =
     (if filter (\<lambda>k. k \<notin> set fieldnames) (dict_keys rowdict) \<noteq> [] then Inl ValueError
      else Inr (row_values fieldnames rowdict))"

text \<open>\<^verbatim>\<open>writeheader\<close> writes the field names themselves.\<close>

definition header_row :: "string list \<Rightarrow> pyval list" where
  "header_row fieldnames = map PStr fieldnames"

text \<open>Lines 122 to 132: the existing rows go before the new ones and the file is copied
  to \<^verbatim>\<open>fname + '.bak'\<close>.\<close>

definition read_and_backup ::
  "'c csv_module \<Rightarrow> 'c fs \<Rightarrow> plume list \<Rightarrow> string \<Rightarrow> logger option
     \<Rightarrow> plume list \<times> 'c fs \<times> fs_op list \<times> logger option" where
  "read_and_backup csv fs plumes fname logger =
     (case fs fname of
        Some content \<Rightarrow>
          (dict_reader csv False content @ plumes,
           fs(fname @ ''.bak'' \<mapsto> content),
           [IsFile fname, OpenRead fname, CopyFile fname (fname @ ''.bak'')],
           log_msg logger CRITICAL ''Original plume file backed up to {}''
             (ArgStr (fname @ ''.bak'')))
      | None \<Rightarrow> (plumes, fs, [IsFile fname], logger))"

text \<open>Lines 134 to 142: the optional sort.\<close>

definition sort_plumes ::
  "plume list \<Rightarrow> string option \<Rightarrow> logger option \<Rightarrow> (error + plume list) \<times> logger option" where
  "sort_plumes plumes sort_by_key logger =
     (case sort_by_key of
        None \<Rightarrow> (Inr plumes, logger)
      | Some key \<Rightarrow>
          (case plumes of
             [] \<Rightarrow> (Inl IndexError, logger)
           | first # _ \<Rightarrow>
               if dict_contains first key then (py_sorted key plumes, logger)
               else (Inr plumes,
                     log_msg (log_msg logger WARNING ''Sort key {} not found.'' (ArgStr key))
                       WARNING ''Plumes left unsorted.'' ArgNone)))"

text \<open>Lines 151 to 158: the rows written so far and the logger; a plume whose
  \<^verbatim>\<open>writerow\<close> raises is reported and left out.\<close>

fun write_rows ::
  "string list \<Rightarrow> string \<Rightarrow> plume list \<Rightarrow> pyval list list \<Rightarrow> logger option
     \<Rightarrow> pyval list list \<times> logger option" where
  "write_rows field_names fname [] rows logger = (rows, logger)"
| "write_rows field_names fname (plume # rest) rows logger =
     (case dict_to_list field_names plume of
        Inr row \<Rightarrow> write_rows field_names fname rest (rows @ [row]) logger
      | Inl _ \<Rightarrow>
          write_rows field_names fname rest rows
            (log_msg (log_msg logger WARNING ''Could not write plume: {}'' (ArgPlume plume))
               WARNING ''Check that the plume fields match the header in {}'' (ArgStr fname)))"

text \<open>Lines 144 to 161: the header comes from the first plume; the file is rewritten.\<close>

definition write_plumes ::
  "'c csv_module \<Rightarrow> 'c fs \<Rightarrow> fs_op list \<Rightarrow> plume list \<Rightarrow> string \<Rightarrow> logger option \<Rightarrow> 'c outcome" where
  "write_plumes csv fs ops plumes fname logger =
     (case plumes of
        [] \<Rightarrow> \<lparr>raised = Some IndexError, files = fs, trace = ops, logged = logger\<rparr>
      | first # _ \<Rightarrow>
          (let field_names = dict_keys first
           in case write_rows field_names fname plumes [header_row field_names] logger of
                (rows, logger1) \<Rightarrow>
                  \<lparr>raised = None,
                   files = fs(fname \<mapsto> writer_output csv rows),
                   trace = ops @ [OpenWrite fname],
                   logged = log_msg logger1 CRITICAL ''Extended plume file written to {}''
                              (ArgStr fname)\<rparr>))"

definition insert_plumes_in_file ::
  "'c csv_module \<Rightarrow> 'c fs \<Rightarrow> plume list \<Rightarrow> string \<Rightarrow> string option \<Rightarrow> logger option
     \<Rightarrow> 'c outcome" where
  "insert_plumes_in_file csv fs plumes fname sort_by_key logger =
     (if length plumes > 0 then
        (case read_and_backup csv fs plumes fname logger of
           (plumes1, fs1, ops, logger1) \<Rightarrow>
             (case sort_plumes plumes1 sort_by_key logger1 of
                (Inl err, logger2) \<Rightarrow>
                  \<lparr>raised = Some err, files = fs1, trace = ops, logged = logger2\<rparr>
              | (Inr plumes2, logger2) \<Rightarrow> write_plumes csv fs1 ops plumes2 fname logger2))
      else
        \<lparr>raised = None, files = fs, trace = [],
         logged = log_msg logger WARNING ''Skipped insertion because plume list was empty''
                    ArgNone\<rparr>)"

section \<open>\<^verbatim>\<open>main\<close>\<close>

text \<open>
  \<open>plume_file\<close>, \<open>winds_dir\<close> and \<open>out_fname\<close> are what \<^verbatim>\<open>parse_args\<close> returns and
  \<open>logger\<close> what \<^verbatim>\<open>init_logger\<close> returns. Only \<^verbatim>\<open>OSError\<close> is caught (a message is
  printed and \<^verbatim>\<open>main\<close> returns); any other exception escapes.
\<close>

definition main ::
  "('alt::linorder) externals \<Rightarrow> 'c csv_module \<Rightarrow> 'c fs \<Rightarrow> string option \<Rightarrow> string \<Rightarrow> string
     \<Rightarrow> logger \<Rightarrow> 'c outcome" where
  "main ext csv fs plume_file winds_dir out_fname logger =
     (case plume_file of
        None \<Rightarrow>
          \<lparr>raised = None, files = fs, trace = [],
           logged = log_msg (Some logger) WARNING ''Nothing to do'' ArgNone\<rparr>
      | Some file \<Rightarrow>
          (case process_plumes ext csv fs [file] winds_dir (PInt (- 9999))
                  ''Minimum Threshold (ppmm)'' (Some logger) of
             (Inl err, logger1) \<Rightarrow>
               \<lparr>raised = (if err = OSError then None else Some err), files = fs, trace = [],
                logged = logger1\<rparr>
           | (Inr plumes, logger1) \<Rightarrow>
               (let r = insert_plumes_in_file csv fs plumes out_fname (Some ''Candidate ID'') logger1
                in if raised r = Some OSError then r\<lparr>raised := None\<rparr> else r)))"

section \<open>A small concrete setting\<close>

text \<open>
  A wind root \<^verbatim>\<open>winds\<close> with a recognised source \<^verbatim>\<open>bulk\<close> (altitudes enumerated as
  1000, 500), an unrecognised entry and a hidden one; a second root \<^verbatim>\<open>other\<close> whose only
  recognisable entry is hidden. The statistics functions return one field each.
\<close>

definition example_ext :: "int externals" where
  "example_ext =
     \<lparr>listdir = (\<lambda>d. if d = ''winds'' then Inr [''junk'', ''bulk'', ''.hidden'']
                       else if d = ''other'' then Inr [''junk'', ''.bulk'']
                       else Inl OSError),
      WindType = (\<lambda>s. if s = ''bulk'' \<or> s = ''.bulk''
                       then \<lparr>is_unknown = False, type_as_str = ''bulk'', alts = [1000, 500]\<rparr>
                       else \<lparr>is_unknown = True, type_as_str = [], alts = []\<rparr>),
      compute_wind_stats = (\<lambda>plume subdir fill wt alt lg. Inr [(wt @ ''_wind'', PInt alt)]),
      compute_emission_rate = (\<lambda>plume wt fill lg. Inr [(wt @ ''_rate'', fill)])\<rparr>"

text \<open>The same setting with the directory and the altitudes enumerated in another
  order.\<close>

definition example_ext_reordered :: "int externals" where
  "example_ext_reordered =
     \<lparr>listdir = (\<lambda>d. if d = ''winds'' then Inr [''.hidden'', ''bulk'', ''junk'']
                       else if d = ''other'' then Inr [''.bulk'', ''junk'']
                       else Inl OSError),
      WindType = (\<lambda>s. if s = ''bulk'' \<or> s = ''.bulk''
                       then \<lparr>is_unknown = False, type_as_str = ''bulk'', alts = [500, 1000]\<rparr>
                       else \<lparr>is_unknown = True, type_as_str = [], alts = []\<rparr>),
      compute_wind_stats = (\<lambda>plume subdir fill wt alt lg. Inr [(wt @ ''_wind'', PInt alt)]),
      compute_emission_rate = (\<lambda>plume wt fill lg. Inr [(wt @ ''_rate'', fill)])\<rparr>"

text \<open>A file content is the list of rows written to it; reading pairs each later row
  with the names of the first.\<close>

definition example_name :: "pyval \<Rightarrow> string" where
  "example_name v = (case v of PStr s \<Rightarrow> s | _ \<Rightarrow> [])"

definition example_csv :: "pyval list list csv_module" where
  "example_csv =
     \<lparr>dict_reader = (\<lambda>skipinitialspace rows.
          case rows of [] \<Rightarrow> [] | hdr # body \<Rightarrow> map (\<lambda>r. zip (map example_name hdr) r) body),
      writer_output = (\<lambda>rows. rows)\<rparr>"

definition example_fs :: "pyval list list fs" where
  "example_fs =
     [''ime_minppmm1000.csv'' \<mapsto>
        [[PStr ''Candidate ID'', PStr ''IME (kg)''],
         [PStr ''002'', PStr ''7.5''],
         [PStr ''001'', PStr ''120.5'']],
      ''empty_minppmm500.csv'' \<mapsto> [[PStr ''Candidate ID'', PStr ''IME (kg)'']],
      ''out.csv'' \<mapsto>
        [[PStr ''Candidate ID'', PStr ''IME (kg)''],
         [PStr ''000'', PStr ''3.1'']]]"

text \<open>Two input files whose headers differ in the first column.\<close>

definition example_fs_two_headers :: "pyval list list fs" where
  "example_fs_two_headers =
     [''a_minppmm1000.csv'' \<mapsto>
        [[PStr ''Candidate ID'', PStr ''IME (kg)''],
         [PStr ''001'', PStr ''120.5'']],
      ''b_minppmm500.csv'' \<mapsto>
        [[PStr ''Plume'', PStr ''IME (kg)''],
         [PStr ''002'', PStr ''7.5'']]]"

section \<open>The threshold parser\<close>

lemma match_here_Some:
  "match_here s = Some g \<longleftrightarrow>
     (\<exists>post. s = ''minppmm'' @ g @ post \<and> g \<noteq> [] \<and> (\<forall>c\<in>set g. is_digit c)
        \<and> (post = [] \<or> \<not> is_digit (hd post)))"
proof
  assume m: "match_here s = Some g"
  then have t: "take 7 s = ''minppmm''" and g: "g = takeWhile is_digit (drop 7 s)" and ne: "g \<noteq> []"
    by (auto simp: match_here_def split: if_splits)
  have s: "s = take 7 s @ takeWhile is_digit (drop 7 s) @ dropWhile is_digit (drop 7 s)"
    by simp
  have d: "dropWhile is_digit (drop 7 s) = [] \<or> \<not> is_digit (hd (dropWhile is_digit (drop 7 s)))"
    using hd_dropWhile [of is_digit "drop 7 s"] by blast
  have "\<forall>c\<in>set g. is_digit c"
    unfolding g by (meson set_takeWhileD)
  with s t g ne d show "\<exists>post. s = ''minppmm'' @ g @ post \<and> g \<noteq> [] \<and> (\<forall>c\<in>set g. is_digit c)
        \<and> (post = [] \<or> \<not> is_digit (hd post))"
    by metis
next
  assume "\<exists>post. s = ''minppmm'' @ g @ post \<and> g \<noteq> [] \<and> (\<forall>c\<in>set g. is_digit c)
        \<and> (post = [] \<or> \<not> is_digit (hd post))"
  then obtain post where s: "s = ''minppmm'' @ g @ post" and ne: "g \<noteq> []"
    and dg: "\<forall>c\<in>set g. is_digit c" and p: "post = [] \<or> \<not> is_digit (hd post)"
    by blast
  have "takeWhile is_digit (g @ post) = g"
  proof (cases post)
    case Nil
    with dg show ?thesis by simp
  next
    case (Cons a as)
    with p have "\<not> is_digit a" by simp
    with dg Cons show ?thesis by (simp add: takeWhile_tail)
  qed
  with s ne show "match_here s = Some g"
    by (simp add: match_here_def)
qed

lemma re_search_None:
  "re_search s = None \<longleftrightarrow> (\<forall>n. match_here (drop n s) = None)"
proof (induction s)
  case Nil
  then show ?case by (simp add: match_here_def)
next
  case (Cons c cs)
  show ?case
  proof
    assume a: "re_search (c # cs) = None"
    then have m: "match_here (c # cs) = None" and r: "re_search cs = None"
      by (auto split: option.splits)
    show "\<forall>n. match_here (drop n (c # cs)) = None"
    proof
      fix n show "match_here (drop n (c # cs)) = None"
        using m r Cons.IH by (cases n) auto
    qed
  next
    assume a: "\<forall>n. match_here (drop n (c # cs)) = None"
    then have "match_here (drop 0 (c # cs)) = None" by blast
    moreover have "\<forall>n. match_here (drop n cs) = None"
    proof
      fix n show "match_here (drop n cs) = None" using a [rule_format, of "Suc n"] by simp
    qed
    ultimately show "re_search (c # cs) = None"
      using Cons.IH by simp
  qed
qed

lemma re_search_Some:
  "re_search s = Some g \<Longrightarrow>
     \<exists>n. n \<le> length s \<and> match_here (drop n s) = Some g \<and> (\<forall>m<n. match_here (drop m s) = None)"
proof (induction s)
  case Nil
  then show ?case by simp
next
  case (Cons c cs)
  show ?case
  proof (cases "match_here (c # cs)")
    case None
    with Cons.prems have "re_search cs = Some g" by simp
    from Cons.IH [OF this] obtain n where n: "n \<le> length cs" "match_here (drop n cs) = Some g"
      "\<forall>m<n. match_here (drop m cs) = None" by blast
    have "\<forall>m<Suc n. match_here (drop m (c # cs)) = None"
    proof (intro allI impI)
      fix m assume "m < Suc n"
      then show "match_here (drop m (c # cs)) = None"
        using None n(3) by (cases m) auto
    qed
    with n show ?thesis
      by (intro exI [of _ "Suc n"]) simp
  next
    case (Some h)
    with Cons.prems have "h = g" by simp
    with Some show ?thesis
      by (intro exI [of _ 0]) simp
  qed
qed


lemma match_here_digit:
  "is_digit d \<Longrightarrow> match_here (''minppmm'' @ d # post) \<noteq> None"
  by (simp add: match_here_def)

lemma match_at_iff:
  "(\<exists>n. match_here (drop n s) \<noteq> None) \<longleftrightarrow>
     (\<exists>pre ds post. s = pre @ ''minppmm'' @ ds @ post \<and> ds \<noteq> [] \<and> (\<forall>c\<in>set ds. is_digit c))"
proof
  assume "\<exists>n. match_here (drop n s) \<noteq> None"
  then obtain n g where "match_here (drop n s) = Some g" by auto
  then obtain post where d: "drop n s = ''minppmm'' @ g @ post" and g: "g \<noteq> []" "\<forall>c\<in>set g. is_digit c"
    unfolding match_here_Some by blast
  have split: "s = take n s @ ''minppmm'' @ g @ post"
    using d append_take_drop_id [of n s] by simp
  show "\<exists>pre ds post. s = pre @ ''minppmm'' @ ds @ post \<and> ds \<noteq> [] \<and> (\<forall>c\<in>set ds. is_digit c)"
  proof (intro exI conjI)
    show "s = take n s @ ''minppmm'' @ g @ post" by (rule split)
    show "g \<noteq> []" by (rule g(1))
    show "\<forall>c\<in>set g. is_digit c" by (rule g(2))
  qed
next
  assume "\<exists>pre ds post. s = pre @ ''minppmm'' @ ds @ post \<and> ds \<noteq> [] \<and> (\<forall>c\<in>set ds. is_digit c)"
  then obtain pre ds post where s: "s = pre @ ''minppmm'' @ ds @ post" and ne: "ds \<noteq> []"
    and dg: "\<forall>c\<in>set ds. is_digit c" by blast
  from ne obtain d ds' where ds: "ds = d # ds'" by (cases ds) auto
  with dg have "is_digit d" by simp
  then have "match_here (''minppmm'' @ d # (ds' @ post)) \<noteq> None"
    by (rule match_here_digit)
  moreover have "drop (length pre) s = ''minppmm'' @ d # (ds' @ post)"
    using s ds by simp
  ultimately have "match_here (drop (length pre) s) \<noteq> None" by simp
  then show "\<exists>n. match_here (drop n s) \<noteq> None" by (rule exI)
qed

text \<open>
  Claim C4. For every file name, \<open>get_minppmm_from_fname\<close> raises (\<^verbatim>\<open>ValueError\<close>)
  exactly when the name has no substring made of \<^verbatim>\<open>minppmm\<close> and at least one digit.
  When it has one, the result is the decimal value of the digit group of the leftmost
  such substring, the group being the whole run of digits. The exception is not
  recovered: it escapes \<open>main\<close>, which leaves the files as they were.
\<close>

theorem get_minppmm_from_fname_spec:
  "(get_minppmm_from_fname fname = Inl ValueError \<longleftrightarrow>
      \<not> (\<exists>pre ds post. fname = pre @ ''minppmm'' @ ds @ post \<and> ds \<noteq> []
            \<and> (\<forall>c\<in>set ds. is_digit c)))
   \<and> ((\<exists>pre ds post. fname = pre @ ''minppmm'' @ ds @ post \<and> ds \<noteq> []
            \<and> (\<forall>c\<in>set ds. is_digit c)) \<longrightarrow>
       (\<exists>pre ds post. fname = pre @ ''minppmm'' @ ds @ post \<and> ds \<noteq> []
            \<and> (\<forall>c\<in>set ds. is_digit c)
            \<and> (post = [] \<or> \<not> is_digit (hd post))
            \<and> (\<forall>pre' d post'. fname = pre' @ ''minppmm'' @ d # post' \<and> is_digit d
                  \<longrightarrow> length pre \<le> length pre')
            \<and> get_minppmm_from_fname fname = Inr (int_of_digits ds)))
   \<and> (get_minppmm_from_fname fname = Inl ValueError \<longrightarrow>
        raised (main ext csv fs (Some fname) winds_dir out_fname logger) = Some ValueError
        \<and> files (main ext csv fs (Some fname) winds_dir out_fname logger) = fs)"
proof (intro conjI impI)
  have "get_minppmm_from_fname fname = Inl ValueError \<longleftrightarrow> re_search fname = None"
    by (simp add: get_minppmm_from_fname_def split: option.splits)
  also have "\<dots> \<longleftrightarrow> \<not> (\<exists>n. match_here (drop n fname) \<noteq> None)"
    by (simp add: re_search_None)
  finally show "get_minppmm_from_fname fname = Inl ValueError \<longleftrightarrow>
      \<not> (\<exists>pre ds post. fname = pre @ ''minppmm'' @ ds @ post \<and> ds \<noteq> []
            \<and> (\<forall>c\<in>set ds. is_digit c))"
    unfolding match_at_iff .
next
  assume "\<exists>pre ds post. fname = pre @ ''minppmm'' @ ds @ post \<and> ds \<noteq> []
            \<and> (\<forall>c\<in>set ds. is_digit c)"
  then have "\<exists>n. match_here (drop n fname) \<noteq> None"
    unfolding match_at_iff .
  then have "re_search fname \<noteq> None"
    by (simp add: re_search_None)
  then obtain g where g: "re_search fname = Some g" by auto
  from re_search_Some [OF g] obtain n where n: "n \<le> length fname"
    and m: "match_here (drop n fname) = Some g"
    and left: "\<forall>k<n. match_here (drop k fname) = None" by blast
  from m obtain post where d: "drop n fname = ''minppmm'' @ g @ post" and ne: "g \<noteq> []"
    and dg: "\<forall>c\<in>set g. is_digit c" and stop: "post = [] \<or> \<not> is_digit (hd post)"
    unfolding match_here_Some by blast
  have split: "fname = take n fname @ ''minppmm'' @ g @ post"
    using d append_take_drop_id [of n fname] by simp
  have len: "length (take n fname) = n" using n by simp
  have leftmost: "\<forall>pre' d post'. fname = pre' @ ''minppmm'' @ d # post' \<and> is_digit d
                  \<longrightarrow> length (take n fname) \<le> length pre'"
  proof (intro allI impI)
    fix pre' d post'
    assume a: "fname = pre' @ ''minppmm'' @ d # post' \<and> is_digit d"
    then have "drop (length pre') fname = ''minppmm'' @ d # post'" by simp
    moreover from a have "match_here (''minppmm'' @ d # post') \<noteq> None"
      by (intro match_here_digit) simp
    ultimately have found: "match_here (drop (length pre') fname) \<noteq> None" by simp
    have "\<not> length pre' < n"
    proof
      assume "length pre' < n"
      then have "match_here (drop (length pre') fname) = None"
        using left by simp
      with found show False by simp
    qed
    with len show "length (take n fname) \<le> length pre'" by simp
  qed
  show "\<exists>pre ds post. fname = pre @ ''minppmm'' @ ds @ post \<and> ds \<noteq> []
            \<and> (\<forall>c\<in>set ds. is_digit c)
            \<and> (post = [] \<or> \<not> is_digit (hd post))
            \<and> (\<forall>pre' d post'. fname = pre' @ ''minppmm'' @ d # post' \<and> is_digit d
                  \<longrightarrow> length pre \<le> length pre')
            \<and> get_minppmm_from_fname fname = Inr (int_of_digits ds)"
  proof (intro exI conjI)
    show "fname = take n fname @ ''minppmm'' @ g @ post" by (rule split)
    show "g \<noteq> []" by (rule ne)
    show "\<forall>c\<in>set g. is_digit c" by (rule dg)
    show "post = [] \<or> \<not> is_digit (hd post)" by (rule stop)
    show "\<forall>pre' d post'. fname = pre' @ ''minppmm'' @ d # post' \<and> is_digit d
                  \<longrightarrow> length (take n fname) \<le> length pre'" by (rule leftmost)
    show "get_minppmm_from_fname fname = Inr (int_of_digits g)"
      using g by (simp add: get_minppmm_from_fname_def)
  qed
next
  assume "get_minppmm_from_fname fname = Inl ValueError"
  then show "raised (main ext csv fs (Some fname) winds_dir out_fname logger) = Some ValueError"
    by (simp add: main_def process_plumes_def)
next
  assume "get_minppmm_from_fname fname = Inl ValueError"
  then show "files (main ext csv fs (Some fname) winds_dir out_fname logger) = fs"
    by (simp add: main_def process_plumes_def)
qed

theorem get_minppmm_from_fname_spec_witness:
  "get_minppmm_from_fname ''plumes.csv'' = Inl ValueError
   \<and> raised (main example_ext example_csv example_fs (Some ''plumes.csv'') ''winds'' ''out.csv'' [])
       = Some ValueError
   \<and> files (main example_ext example_csv example_fs (Some ''plumes.csv'') ''winds'' ''out.csv'' [])
       = example_fs
   \<and> get_minppmm_from_fname ''ime_minppmm1000/ang_ime_minppmm0500_plumes.csv'' = Inr 1000"
proof -
  have none: "get_minppmm_from_fname ''plumes.csv'' = Inl ValueError"
    by (simp add: get_minppmm_from_fname_def match_here_def)
  have some: "get_minppmm_from_fname ''ime_minppmm1000/ang_ime_minppmm0500_plumes.csv'' = Inr 1000"
    by (simp add: get_minppmm_from_fname_def match_here_def is_digit_def int_of_digits_def)
  from none some
    get_minppmm_from_fname_spec [of "''plumes.csv''" example_ext example_csv example_fs
      "''winds''" "''out.csv''" "[]"]
  show ?thesis by simp
qed

section \<open>The writer\<close>

lemma dict_to_list_fits:
  "set (dict_keys p) \<subseteq> set fns \<Longrightarrow> dict_to_list fns p = Inr (row_values fns p)"
  by (auto simp: dict_to_list_def filter_empty_conv)

lemma dict_to_list_extra:
  "\<not> set (dict_keys p) \<subseteq> set fns \<Longrightarrow> dict_to_list fns p = Inl ValueError"
  by (auto simp: dict_to_list_def filter_empty_conv)

lemma write_rows_fst:
  "fst (write_rows fns fname ps rows lg) =
     rows @ map (row_values fns) (filter (\<lambda>p. set (dict_keys p) \<subseteq> set fns) ps)"
proof (induction ps arbitrary: rows lg)
  case Nil
  then show ?case by simp
next
  case (Cons p ps)
  show ?case
  proof (cases "set (dict_keys p) \<subseteq> set fns")
    case True
    then show ?thesis using Cons.IH by (simp add: dict_to_list_fits)
  next
    case False
    then show ?thesis using Cons.IH by (simp add: dict_to_list_extra)
  qed
qed

lemma write_rows_snd_None:
  "snd (write_rows fns fname ps rows None) = None"
proof (induction ps arbitrary: rows)
  case Nil
  then show ?case by simp
next
  case (Cons p ps)
  then show ?case
    by (cases "set (dict_keys p) \<subseteq> set fns")
       (simp_all add: dict_to_list_fits dict_to_list_extra log_msg_def)
qed

lemma write_rows_snd_Some:
  "snd (write_rows fns fname ps rows (Some l)) =
     Some (l @ concat (map (\<lambda>p. [(WARNING, ''Could not write plume: {}'', ArgPlume p),
                                   (WARNING, ''Check that the plume fields match the header in {}'',
                                    ArgStr fname)])
                         (filter (\<lambda>p. \<not> set (dict_keys p) \<subseteq> set fns) ps)))"
proof (induction ps arbitrary: rows l)
  case Nil
  then show ?case by simp
next
  case (Cons p ps)
  then show ?case
    by (cases "set (dict_keys p) \<subseteq> set fns")
       (simp_all add: dict_to_list_fits dict_to_list_extra log_msg_def)
qed

lemma those_str_keys:
  "\<forall>p\<in>set ds. \<exists>s. map_of p k = Some (PStr s) \<Longrightarrow>
     those (map (\<lambda>d. map_of d k) ds) = Some (map (\<lambda>d. PStr (str_key k d)) ds)"
  by (induction ds) (auto simp: str_key_def)

lemma sort_key_short: "length ds < 2 \<Longrightarrow> sort_key f ds = ds"
proof (cases ds)
  case Nil
  then show ?thesis by simp
next
  case (Cons a as)
  assume "length ds < 2"
  with Cons have "as = []" by simp
  with Cons show ?thesis by simp
qed

lemma py_sorted_strings:
  assumes "\<forall>p\<in>set ds. \<exists>s. map_of p k = Some (PStr s)"
  shows "py_sorted k ds = Inr (sort_key (str_key k) ds)"
proof -
  have "list_all is_str (map (\<lambda>d. PStr (str_key k d)) ds)"
    by (simp add: list_all_iff is_str_def)
  then show ?thesis
    using those_str_keys [OF assms] by (simp add: py_sorted_def sort_key_short)
qed

lemma py_sorted_mset:
  "py_sorted k ds = Inr r \<Longrightarrow> mset r = mset ds"
  by (auto simp: py_sorted_def split: option.splits if_splits)

lemma py_sorted_missing:
  "p \<in> set ds \<Longrightarrow> map_of p k = None \<Longrightarrow> py_sorted k ds = Inl KeyError"
proof -
  assume a: "p \<in> set ds" "map_of p k = None"
  have "those (map (\<lambda>d. map_of d k) ds) = None"
    using a by (induction ds) (auto split: option.splits)
  then show ?thesis by (simp add: py_sorted_def)
qed

lemma sort_plumes_nonempty:
  "sort_plumes merged sort_by_key lg = (Inr final, lg') \<Longrightarrow> merged \<noteq> [] \<Longrightarrow> final \<noteq> []"
proof -
  assume a: "sort_plumes merged sort_by_key lg = (Inr final, lg')" and ne: "merged \<noteq> []"
  have "mset final = mset merged"
    using a by (auto simp: sort_plumes_def py_sorted_mset split: option.splits list.splits if_splits)
  with ne show ?thesis by auto
qed

lemma read_and_backup_merged:
  "read_and_backup csv fs plumes fname logger = (merged, fs1, ops, logger1) \<Longrightarrow>
     merged = (case fs fname of None \<Rightarrow> [] | Some content \<Rightarrow> dict_reader csv False content) @ plumes"
  by (auto simp: read_and_backup_def split: option.splits)

lemma write_plumes_nonempty:
  "final \<noteq> [] \<Longrightarrow>
     write_plumes csv fs1 ops final fname lg =
       \<lparr>raised = None,
        files = fs1(fname \<mapsto> writer_output csv
                  (fst (write_rows (dict_keys (hd final)) fname final
                          [header_row (dict_keys (hd final))] lg))),
        trace = ops @ [OpenWrite fname],
        logged = log_msg (snd (write_rows (dict_keys (hd final)) fname final
                                 [header_row (dict_keys (hd final))] lg))
                   CRITICAL ''Extended plume file written to {}'' (ArgStr fname)\<rparr>"
  by (cases final) (simp_all add: write_plumes_def case_prod_beta Let_def del: write_rows.simps)

lemma insert_nonempty:
  "plumes \<noteq> [] \<Longrightarrow> read_and_backup csv fs plumes fname logger = (merged, fs1, ops, logger1) \<Longrightarrow>
     insert_plumes_in_file csv fs plumes fname sort_by_key logger =
       (case sort_plumes merged sort_by_key logger1 of
          (Inl err, logger2) \<Rightarrow> \<lparr>raised = Some err, files = fs1, trace = ops, logged = logger2\<rparr>
        | (Inr plumes2, logger2) \<Rightarrow> write_plumes csv fs1 ops plumes2 fname logger2)"
  by (simp add: insert_plumes_in_file_def)

lemma read_and_backup_nonempty:
  "plumes \<noteq> [] \<Longrightarrow> read_and_backup csv fs plumes fname logger = (merged, fs1, ops, logger1) \<Longrightarrow>
     merged \<noteq> []"
  by (auto simp: read_and_backup_def split: option.splits)

text \<open>
  Claim C1, as amended. For a non-empty record list, whenever the sort does not raise,
  the call does not raise and the output file holds the header (the field names of the
  first record of the final list) and then, in the order of the final list, one row for
  every record all of whose keys are header fields, with the empty string for each header
  field the record lacks. A record with a key outside the header is left out, and with a
  logger the two warnings are logged for it; the other records are still written.
\<close>

theorem insert_plumes_in_file_rows:
  assumes "plumes \<noteq> []"
    and "read_and_backup csv fs plumes fname logger = (merged, fs1, ops, logger1)"
    and "sort_plumes merged sort_by_key logger1 = (Inr final, logger2)"
  shows "final \<noteq> []
    \<and> raised (insert_plumes_in_file csv fs plumes fname sort_by_key logger) = None
    \<and> files (insert_plumes_in_file csv fs plumes fname sort_by_key logger) fname =
        Some (writer_output csv
               (header_row (dict_keys (hd final)) #
                map (row_values (dict_keys (hd final)))
                  (filter (\<lambda>p. set (dict_keys p) \<subseteq> set (dict_keys (hd final))) final)))
    \<and> logged (insert_plumes_in_file csv fs plumes fname sort_by_key logger) =
        (case logger2 of
           None \<Rightarrow> None
         | Some l \<Rightarrow>
             Some (l @ concat (map (\<lambda>p. [(WARNING, ''Could not write plume: {}'', ArgPlume p),
                                          (WARNING, ''Check that the plume fields match the header in {}'',
                                           ArgStr fname)])
                                (filter (\<lambda>p. \<not> set (dict_keys p) \<subseteq> set (dict_keys (hd final))) final))
                     @ [(CRITICAL, ''Extended plume file written to {}'', ArgStr fname)]))"
proof -
  have m: "merged \<noteq> []"
    using assms(1,2) by (rule read_and_backup_nonempty)
  have f: "final \<noteq> []"
    using assms(3) m by (rule sort_plumes_nonempty)
  have eq: "insert_plumes_in_file csv fs plumes fname sort_by_key logger =
              write_plumes csv fs1 ops final fname logger2"
    using insert_nonempty [OF assms(1,2)] assms(3) by simp
  have lg: "logged (write_plumes csv fs1 ops final fname logger2) =
        (case logger2 of
           None \<Rightarrow> None
         | Some l \<Rightarrow>
             Some (l @ concat (map (\<lambda>p. [(WARNING, ''Could not write plume: {}'', ArgPlume p),
                                          (WARNING, ''Check that the plume fields match the header in {}'',
                                           ArgStr fname)])
                                (filter (\<lambda>p. \<not> set (dict_keys p) \<subseteq> set (dict_keys (hd final))) final))
                     @ [(CRITICAL, ''Extended plume file written to {}'', ArgStr fname)]))"
    by (cases logger2)
       (simp_all add: write_plumes_nonempty [OF f] write_rows_snd_None write_rows_snd_Some
          log_msg_def del: write_rows.simps)
  show ?thesis
    unfolding eq
    using f lg by (simp add: write_plumes_nonempty [OF f] write_rows_fst del: write_rows.simps)
qed

theorem insert_plumes_in_file_rows_witness:
  "files (insert_plumes_in_file example_csv example_fs
            [[(''Candidate ID'', PStr ''001''), (''IME (kg)'', PStr ''120.5'')],
             [(''Candidate ID'', PStr ''003'')],
             [(''Candidate ID'', PStr ''002''), (''Wind'', PStr ''4'')]]
            ''new.csv'' None (Some [])) ''new.csv'' =
     Some [[PStr ''Candidate ID'', PStr ''IME (kg)''],
           [PStr ''001'', PStr ''120.5''],
           [PStr ''003'', PStr '''']]
   \<and> raised (insert_plumes_in_file example_csv example_fs
            [[(''Candidate ID'', PStr ''001''), (''IME (kg)'', PStr ''120.5'')],
             [(''Candidate ID'', PStr ''003'')],
             [(''Candidate ID'', PStr ''002''), (''Wind'', PStr ''4'')]]
            ''new.csv'' None (Some [])) = None
   \<and> logged (insert_plumes_in_file example_csv example_fs
            [[(''Candidate ID'', PStr ''001''), (''IME (kg)'', PStr ''120.5'')],
             [(''Candidate ID'', PStr ''003'')],
             [(''Candidate ID'', PStr ''002''), (''Wind'', PStr ''4'')]]
            ''new.csv'' None (Some [])) =
     Some [(WARNING, ''Could not write plume: {}'',
            ArgPlume [(''Candidate ID'', PStr ''002''), (''Wind'', PStr ''4'')]),
           (WARNING, ''Check that the plume fields match the header in {}'', ArgStr ''new.csv''),
           (CRITICAL, ''Extended plume file written to {}'', ArgStr ''new.csv'')]"
proof -
  let ?plumes = "[[(''Candidate ID'', PStr ''001''), (''IME (kg)'', PStr ''120.5'')],
             [(''Candidate ID'', PStr ''003'')],
             [(''Candidate ID'', PStr ''002''), (''Wind'', PStr ''4'')]]"
  have h1: "?plumes \<noteq> []" by simp
  have h2: "read_and_backup example_csv example_fs ?plumes ''new.csv'' (Some []) =
              (?plumes, example_fs, [IsFile ''new.csv''], Some [])"
    by (simp add: read_and_backup_def example_fs_def)
  have h3: "sort_plumes ?plumes None (Some []) = (Inr ?plumes, Some [])"
    by (simp add: sort_plumes_def)
  show ?thesis
    using insert_plumes_in_file_rows [OF h1 h2 h3]
    by (simp add: dict_keys_def row_values_def header_row_def example_csv_def)
qed

theorem insert_plumes_in_file_missing_key_counterexample:
  "files (insert_plumes_in_file example_csv Map.empty
            [[(''Candidate ID'', PStr ''001''), (''IME (kg)'', PStr ''120.5'')],
             [(''Candidate ID'', PStr ''003'')]]
            ''out.csv'' None None) ''out.csv'' =
     Some [[PStr ''Candidate ID'', PStr ''IME (kg)''],
           [PStr ''001'', PStr ''120.5''],
           [PStr ''003'', PStr '''']]"
  by (simp add: insert_plumes_in_file_def read_and_backup_def sort_plumes_def write_plumes_def
        dict_to_list_def dict_keys_def row_values_def header_row_def example_csv_def)

text \<open>
  Claim C7. Called with an empty record list, \<open>insert_plumes_in_file\<close> returns normally,
  leaves every file as it was (so no backup file appears), makes no file-system call at
  all, and only logs one warning when it has a logger.
\<close>

theorem insert_plumes_in_file_empty:
  "raised (insert_plumes_in_file csv fs [] fname sort_by_key logger) = None
   \<and> files (insert_plumes_in_file csv fs [] fname sort_by_key logger) = fs
   \<and> trace (insert_plumes_in_file csv fs [] fname sort_by_key logger) = []
   \<and> logged (insert_plumes_in_file csv fs [] fname sort_by_key logger) =
       log_msg logger WARNING ''Skipped insertion because plume list was empty'' ArgNone"
  by (simp add: insert_plumes_in_file_def)

theorem insert_plumes_in_file_empty_witness:
  "raised (insert_plumes_in_file example_csv example_fs [] ''out.csv'' (Some ''Candidate ID'')
             (Some [])) = None
   \<and> files (insert_plumes_in_file example_csv example_fs [] ''out.csv'' (Some ''Candidate ID'')
             (Some [])) = example_fs
   \<and> trace (insert_plumes_in_file example_csv example_fs [] ''out.csv'' (Some ''Candidate ID'')
             (Some [])) = []
   \<and> logged (insert_plumes_in_file example_csv example_fs [] ''out.csv'' (Some ''Candidate ID'')
             (Some [])) =
       Some [(WARNING, ''Skipped insertion because plume list was empty'', ArgNone)]"
  using insert_plumes_in_file_empty [of example_csv example_fs "''out.csv''"
      "Some ''Candidate ID''" "Some []"]
  by (simp add: log_msg_def)




text \<open>
  Claim C3, as amended. For a non-empty record list and a sort key, the list that is
  sorted is the existing rows followed by the new records. When every record of that
  list has the key with a string value, the list is sorted by that value under string
  comparison, stably, and the call does not raise. When the key is absent from the first
  record of that list, the list is written in its existing-then-new order, two warnings
  go to the logger, and the call does not raise.
\<close>

theorem insert_plumes_in_file_sort:
  assumes "plumes \<noteq> []"
    and "read_and_backup csv fs plumes fname logger = (merged, fs1, ops, logger1)"
  shows "merged = (case fs fname of None \<Rightarrow> [] | Some content \<Rightarrow> dict_reader csv False content)
                    @ plumes
    \<and> ((\<forall>p\<in>set merged. \<exists>s. map_of p key = Some (PStr s)) \<longrightarrow>
          (\<exists>final. insert_plumes_in_file csv fs plumes fname (Some key) logger =
                      write_plumes csv fs1 ops final fname logger1
             \<and> sorted (map (str_key key) final)
             \<and> mset final = mset merged
             \<and> (\<forall>v. filter (\<lambda>p. str_key key p = v) final = filter (\<lambda>p. str_key key p = v) merged))
          \<and> raised (insert_plumes_in_file csv fs plumes fname (Some key) logger) = None)
    \<and> (\<not> dict_contains (hd merged) key \<longrightarrow>
          insert_plumes_in_file csv fs plumes fname (Some key) logger =
            write_plumes csv fs1 ops merged fname
              (log_msg (log_msg logger1 WARNING ''Sort key {} not found.'' (ArgStr key))
                 WARNING ''Plumes left unsorted.'' ArgNone)
          \<and> raised (insert_plumes_in_file csv fs plumes fname (Some key) logger) = None)"
proof (intro conjI impI)
  show "merged = (case fs fname of None \<Rightarrow> [] | Some content \<Rightarrow> dict_reader csv False content)
                    @ plumes"
    using assms(2) by (rule read_and_backup_merged)
next
  have m: "merged \<noteq> []"
    using assms by (rule read_and_backup_nonempty)
  then obtain first rest where mr: "merged = first # rest" by (cases merged) auto
  note unfold = insert_nonempty [OF assms, of "Some key"]
  {
    assume strs: "\<forall>p\<in>set merged. \<exists>s. map_of p key = Some (PStr s)"
    let ?final = "sort_key (str_key key) merged"
    have "dict_contains first key"
      using strs mr by (auto simp: dict_contains_def)
    then have sp: "sort_plumes merged (Some key) logger1 = (Inr ?final, logger1)"
      using mr py_sorted_strings [OF strs] by (simp add: sort_plumes_def)
    have eq: "insert_plumes_in_file csv fs plumes fname (Some key) logger =
                write_plumes csv fs1 ops ?final fname logger1"
      using unfold sp by simp
    have st: "\<forall>v. filter (\<lambda>p. str_key key p = v) ?final = filter (\<lambda>p. str_key key p = v) merged"
      by (simp add: sort_key_stable)
    have "insert_plumes_in_file csv fs plumes fname (Some key) logger =
                      write_plumes csv fs1 ops ?final fname logger1
             \<and> sorted (map (str_key key) ?final)
             \<and> mset ?final = mset merged
             \<and> (\<forall>v. filter (\<lambda>p. str_key key p = v) ?final = filter (\<lambda>p. str_key key p = v) merged)"
      using eq st by simp
    then show "\<exists>final. insert_plumes_in_file csv fs plumes fname (Some key) logger =
                      write_plumes csv fs1 ops final fname logger1
             \<and> sorted (map (str_key key) final)
             \<and> mset final = mset merged
             \<and> (\<forall>v. filter (\<lambda>p. str_key key p = v) final = filter (\<lambda>p. str_key key p = v) merged)"
      by (rule exI)
    have "?final \<noteq> []" using m by (metis mset_sort mset_zero_iff)
    then show "raised (insert_plumes_in_file csv fs plumes fname (Some key) logger) = None"
      unfolding eq by (simp add: write_plumes_nonempty del: write_rows.simps)
  }
  {
    assume absent: "\<not> dict_contains (hd merged) key"
    then have sp: "sort_plumes merged (Some key) logger1 =
        (Inr merged, log_msg (log_msg logger1 WARNING ''Sort key {} not found.'' (ArgStr key))
                 WARNING ''Plumes left unsorted.'' ArgNone)"
      using mr by (simp add: sort_plumes_def)
    show eq: "insert_plumes_in_file csv fs plumes fname (Some key) logger =
            write_plumes csv fs1 ops merged fname
              (log_msg (log_msg logger1 WARNING ''Sort key {} not found.'' (ArgStr key))
                 WARNING ''Plumes left unsorted.'' ArgNone)"
      using unfold sp by simp
    show "raised (insert_plumes_in_file csv fs plumes fname (Some key) logger) = None"
      unfolding eq using m by (simp add: write_plumes_nonempty del: write_rows.simps)
  }
qed

theorem insert_plumes_in_file_sort_witness:
  "raised (insert_plumes_in_file example_csv example_fs
            [[(''Candidate ID'', PStr ''002''), (''IME (kg)'', PStr ''7.5'')],
             [(''Candidate ID'', PStr ''001''), (''IME (kg)'', PStr ''120.5'')]]
            ''out.csv'' (Some ''Candidate ID'') None) = None
   \<and> files (insert_plumes_in_file example_csv example_fs
            [[(''Candidate ID'', PStr ''002''), (''IME (kg)'', PStr ''7.5'')],
             [(''Candidate ID'', PStr ''001''), (''IME (kg)'', PStr ''120.5'')]]
            ''out.csv'' (Some ''Candidate ID'') None) ''out.csv'' =
     Some [[PStr ''Candidate ID'', PStr ''IME (kg)''],
           [PStr ''000'', PStr ''3.1''],
           [PStr ''001'', PStr ''120.5''],
           [PStr ''002'', PStr ''7.5'']]
   \<and> raised (insert_plumes_in_file example_csv example_fs
            [[(''Candidate ID'', PStr ''002''), (''IME (kg)'', PStr ''7.5'')],
             [(''Candidate ID'', PStr ''001''), (''IME (kg)'', PStr ''120.5'')]]
            ''out.csv'' (Some ''Plume'') None) = None
   \<and> files (insert_plumes_in_file example_csv example_fs
            [[(''Candidate ID'', PStr ''002''), (''IME (kg)'', PStr ''7.5'')],
             [(''Candidate ID'', PStr ''001''), (''IME (kg)'', PStr ''120.5'')]]
            ''out.csv'' (Some ''Plume'') None) ''out.csv'' =
     Some [[PStr ''Candidate ID'', PStr ''IME (kg)''],
           [PStr ''000'', PStr ''3.1''],
           [PStr ''002'', PStr ''7.5''],
           [PStr ''001'', PStr ''120.5'']]"
proof -
  let ?plumes = "[[(''Candidate ID'', PStr ''002''), (''IME (kg)'', PStr ''7.5'')],
             [(''Candidate ID'', PStr ''001''), (''IME (kg)'', PStr ''120.5'')]]"
  let ?merged = "[(''Candidate ID'', PStr ''000''), (''IME (kg)'', PStr ''3.1'')] # ?plumes"
  let ?fs1 = "example_fs(''out.csv.bak'' \<mapsto>
                [[PStr ''Candidate ID'', PStr ''IME (kg)''], [PStr ''000'', PStr ''3.1'']])"
  let ?ops = "[IsFile ''out.csv'', OpenRead ''out.csv'', CopyFile ''out.csv'' ''out.csv.bak'']"
  have h1: "?plumes \<noteq> []" by simp
  have h2: "read_and_backup example_csv example_fs ?plumes ''out.csv'' None =
              (?merged, ?fs1, ?ops, None)"
    by (simp add: read_and_backup_def example_fs_def example_csv_def example_name_def log_msg_def)
  have strs: "\<forall>p\<in>set ?merged. \<exists>s. map_of p ''Candidate ID'' = Some (PStr s)" by simp
  have absent: "\<not> dict_contains (hd ?merged) ''Plume''" by (simp add: dict_contains_def)
  note sorted_case = insert_plumes_in_file_sort [OF h1 h2, of "''Candidate ID''",
      THEN conjunct2, THEN conjunct1, THEN mp, OF strs, THEN conjunct2]
  note absent_case = insert_plumes_in_file_sort [OF h1 h2, of "''Plume''",
      THEN conjunct2, THEN conjunct2, THEN mp, OF absent, THEN conjunct2]
  have a: "files (insert_plumes_in_file example_csv example_fs ?plumes ''out.csv''
              (Some ''Candidate ID'') None) ''out.csv'' =
     Some [[PStr ''Candidate ID'', PStr ''IME (kg)''],
           [PStr ''000'', PStr ''3.1''],
           [PStr ''001'', PStr ''120.5''],
           [PStr ''002'', PStr ''7.5'']]"
    by (simp add: insert_plumes_in_file_def read_and_backup_def sort_plumes_def write_plumes_def
          example_fs_def example_csv_def example_name_def dict_contains_def py_sorted_def
          is_str_def str_key_def dict_keys_def dict_to_list_def row_values_def header_row_def
          Let_def)
  have b: "files (insert_plumes_in_file example_csv example_fs ?plumes ''out.csv''
              (Some ''Plume'') None) ''out.csv'' =
     Some [[PStr ''Candidate ID'', PStr ''IME (kg)''],
           [PStr ''000'', PStr ''3.1''],
           [PStr ''002'', PStr ''7.5''],
           [PStr ''001'', PStr ''120.5'']]"
    by (simp add: insert_plumes_in_file_def read_and_backup_def sort_plumes_def write_plumes_def
          example_fs_def example_csv_def example_name_def dict_contains_def log_msg_def
          dict_keys_def dict_to_list_def row_values_def header_row_def Let_def)
  show ?thesis
    by (intro conjI) (rule sorted_case, rule a, rule absent_case, rule b)
qed

theorem insert_plumes_in_file_sort_key_error_counterexample:
  "raised (insert_plumes_in_file example_csv Map.empty
             [[(''Candidate ID'', PStr ''002''), (''IME (kg)'', PStr ''7.5'')],
              [(''IME (kg)'', PStr ''120.5'')]]
             ''out.csv'' (Some ''Candidate ID'') None) = Some KeyError
   \<and> files (insert_plumes_in_file example_csv Map.empty
             [[(''Candidate ID'', PStr ''002''), (''IME (kg)'', PStr ''7.5'')],
              [(''IME (kg)'', PStr ''120.5'')]]
             ''out.csv'' (Some ''Candidate ID'') None) ''out.csv'' = None"
  by (simp add: insert_plumes_in_file_def read_and_backup_def sort_plumes_def dict_contains_def
        py_sorted_def)

section \<open>The enrichment of one plume\<close>

lemma dict_update_empty: "dict_update d [] = d"
  by (simp add: dict_update_def)

lemma subdirs_loop_unknown:
  "\<forall>f\<in>set subdirs. is_unknown (WindType ext f) \<Longrightarrow>
     fst (subdirs_loop ext winds_dir fill subdirs plume emission_stats logger) =
       Inr (plume, emission_stats)"
  by (induction subdirs arbitrary: logger) (simp_all add: Let_def)

lemma subdirs_loop_unknown_log:
  "\<forall>f\<in>set subdirs. is_unknown (WindType ext f) \<Longrightarrow>
     snd (subdirs_loop ext winds_dir fill subdirs plume emission_stats logger) =
       (case logger of
          None \<Rightarrow> None
        | Some l \<Rightarrow>
            Some (l @ map (\<lambda>s. (INFO, ''processing for winds in {}'', ArgStr s)) subdirs))"
proof (induction subdirs arbitrary: logger)
  case Nil
  then show ?case by (simp split: option.splits)
next
  case (Cons s subdirs)
  then show ?case by (cases logger) (simp_all add: Let_def log_msg_def)
qed

text \<open>
  Claim C5. When every entry of the wind root whose name does not start with a dot
  classifies as unknown, \<open>process_plume\<close> returns the record unchanged: no wind statistics
  and no emission statistics are added. Nothing is asked of the hidden entries, which may
  even carry a recognised name, nor of the statistics functions, which are never reached;
  the log names the entries without a dot, in sorted order, and no hidden one.
\<close>

theorem process_plume_unknown_only:
  assumes "listdir ext winds_dir = Inr names"
    and "\<forall>f\<in>set names. \<not> startswith_dot f \<longrightarrow> is_unknown (WindType ext f)"
  shows "fst (process_plume ext plume winds_dir fill logger) = Inr plume
    \<and> snd (process_plume ext plume winds_dir fill logger) =
        (case logger of
           None \<Rightarrow> None
         | Some l \<Rightarrow>
             Some (l @ [(WARNING, ''processing plume {}'', ArgPlume plume),
                        (INFO, ''{}'', ArgPlume plume)]
                     @ map (\<lambda>s. (INFO, ''processing for winds in {}'', ArgStr s))
                         (sort (filter (\<lambda>f. \<not> startswith_dot f) names))
                     @ [(INFO, ''Computed plume={}'', ArgPlume plume)]))"
proof -
  let ?subdirs = "sort (filter (\<lambda>f. \<not> startswith_dot f) names)"
  let ?logger0 = "log_msg (log_msg logger WARNING ''processing plume {}'' (ArgPlume plume))
                    INFO ''{}'' (ArgPlume plume)"
  let ?loop = "subdirs_loop ext winds_dir fill ?subdirs plume [] ?logger0"
  have u: "\<forall>f\<in>set ?subdirs. is_unknown (WindType ext f)"
    using assms(2) by simp
  have r: "fst ?loop = Inr (plume, [])"
    using u by (rule subdirs_loop_unknown)
  have l: "snd ?loop =
       (case ?logger0 of
          None \<Rightarrow> None
        | Some l \<Rightarrow>
            Some (l @ map (\<lambda>s. (INFO, ''processing for winds in {}'', ArgStr s)) ?subdirs))"
    using u by (rule subdirs_loop_unknown_log)
  obtain logger1 where loop: "?loop = (Inr (plume, []), logger1)"
    using r by (cases ?loop) simp
  have pp: "process_plume ext plume winds_dir fill logger =
      (Inr plume, log_msg logger1 INFO ''Computed plume={}'' (ArgPlume plume))"
    using assms(1) loop by (simp add: process_plume_def dict_update_empty Let_def)
  have l1: "logger1 =
       (case ?logger0 of
          None \<Rightarrow> None
        | Some l \<Rightarrow>
            Some (l @ map (\<lambda>s. (INFO, ''processing for winds in {}'', ArgStr s)) ?subdirs))"
    using l loop by simp
  show ?thesis
    unfolding pp l1 by (cases logger) (simp_all add: log_msg_def)
qed

theorem process_plume_unknown_only_witness:
  "fst (process_plume example_ext [(''Candidate ID'', PStr ''001''), (''IME (kg)'', PStr ''120.5'')]
          ''other'' (PInt (- 9999)) (Some [])) =
     Inr [(''Candidate ID'', PStr ''001''), (''IME (kg)'', PStr ''120.5'')]
   \<and> snd (process_plume example_ext [(''Candidate ID'', PStr ''001''), (''IME (kg)'', PStr ''120.5'')]
          ''other'' (PInt (- 9999)) (Some [])) =
     Some [(WARNING, ''processing plume {}'',
            ArgPlume [(''Candidate ID'', PStr ''001''), (''IME (kg)'', PStr ''120.5'')]),
           (INFO, ''{}'', ArgPlume [(''Candidate ID'', PStr ''001''), (''IME (kg)'', PStr ''120.5'')]),
           (INFO, ''processing for winds in {}'', ArgStr ''junk''),
           (INFO, ''Computed plume={}'',
            ArgPlume [(''Candidate ID'', PStr ''001''), (''IME (kg)'', PStr ''120.5'')])]"
proof -
  have h1: "listdir example_ext ''other'' = Inr [''junk'', ''.bulk'']"
    by (simp add: example_ext_def)
  have h2: "\<forall>f\<in>set [''junk'', ''.bulk'']. \<not> startswith_dot f \<longrightarrow> is_unknown (WindType example_ext f)"
    by (simp add: example_ext_def startswith_dot_def)
  show ?thesis
    using process_plume_unknown_only [OF h1 h2,
        of "[(''Candidate ID'', PStr ''001''), (''IME (kg)'', PStr ''120.5'')]"
           "PInt (- 9999)" "Some []"]
    by (simp add: startswith_dot_def)
qed

lemma alts_loop_cong:
  "compute_wind_stats e1 = compute_wind_stats e2 \<Longrightarrow>
     alts_loop e1 d fill t logger as plume = alts_loop e2 d fill t logger as plume"
  by (induction as arbitrary: plume) (simp_all split: sum.splits)

lemma subdirs_loop_cong:
  assumes "\<forall>s. is_unknown (WindType e1 s) = is_unknown (WindType e2 s)
             \<and> type_as_str (WindType e1 s) = type_as_str (WindType e2 s)
             \<and> mset (alts (WindType e1 s)) = mset (alts (WindType e2 s))"
    and "compute_wind_stats e1 = compute_wind_stats e2"
    and "compute_emission_rate e1 = compute_emission_rate e2"
  shows "subdirs_loop e1 winds_dir fill subdirs plume es logger =
         subdirs_loop e2 winds_dir fill subdirs plume es logger"
proof (induction subdirs arbitrary: plume es logger)
  case Nil
  then show ?case by simp
next
  case (Cons s subdirs)
  have u: "is_unknown (WindType e1 s) = is_unknown (WindType e2 s)"
    and t: "type_as_str (WindType e1 s) = type_as_str (WindType e2 s)"
    and m: "mset (alts (WindType e1 s)) = mset (alts (WindType e2 s))"
    using assms(1) by simp_all
  have "sort (alts (WindType e2 s)) = sort (alts (WindType e1 s))"
    using m by (intro properties_for_sort) simp_all
  then show ?case
    using u t Cons.IH assms(3) alts_loop_cong [OF assms(2)]
    by (simp add: Let_def split: sum.splits)
qed

text \<open>
  Claim C8. The result of \<open>process_plume\<close> does not depend on the order in which the
  wind root and the altitudes are enumerated: two settings that list the same entries and
  the same altitudes, in any order, and agree on the classification and on the statistics
  functions give the same record, the same exception and the same log. In particular two
  runs on identical inputs agree.
\<close>

theorem process_plume_deterministic:
  assumes "listdir e1 winds_dir = Inr names1"
    and "listdir e2 winds_dir = Inr names2"
    and "mset names1 = mset names2"
    and "\<forall>s. is_unknown (WindType e1 s) = is_unknown (WindType e2 s)
             \<and> type_as_str (WindType e1 s) = type_as_str (WindType e2 s)
             \<and> mset (alts (WindType e1 s)) = mset (alts (WindType e2 s))"
    and "compute_wind_stats e1 = compute_wind_stats e2"
    and "compute_emission_rate e1 = compute_emission_rate e2"
  shows "process_plume e1 plume winds_dir fill logger = process_plume e2 plume winds_dir fill logger"
proof -
  have "mset (filter (\<lambda>f. \<not> startswith_dot f) names2) = mset (filter (\<lambda>f. \<not> startswith_dot f) names1)"
    using assms(3) by simp
  then have "sort (filter (\<lambda>f. \<not> startswith_dot f) names2) = sort (filter (\<lambda>f. \<not> startswith_dot f) names1)"
    by (intro properties_for_sort) simp_all
  then show ?thesis
    using assms(1,2) subdirs_loop_cong [OF assms(4,5,6)]
    by (simp add: process_plume_def)
qed

theorem process_plume_deterministic_witness:
  "process_plume example_ext [(''Candidate ID'', PStr ''001''), (''IME (kg)'', PStr ''120.5'')]
       ''winds'' (PInt (- 9999)) None =
   process_plume example_ext_reordered
       [(''Candidate ID'', PStr ''001''), (''IME (kg)'', PStr ''120.5'')]
       ''winds'' (PInt (- 9999)) None
   \<and> fst (process_plume example_ext_reordered
       [(''Candidate ID'', PStr ''001''), (''IME (kg)'', PStr ''120.5'')]
       ''winds'' (PInt (- 9999)) None) =
     Inr [(''Candidate ID'', PStr ''001''), (''IME (kg)'', PStr ''120.5''),
          (''bulk_wind'', PInt 1000), (''bulk_rate'', PInt (- 9999))]"
proof -
  have h1: "listdir example_ext ''winds'' = Inr [''junk'', ''bulk'', ''.hidden'']"
    by (simp add: example_ext_def)
  have h2: "listdir example_ext_reordered ''winds'' = Inr [''.hidden'', ''bulk'', ''junk'']"
    by (simp add: example_ext_reordered_def)
  have h3: "mset [''junk'', ''bulk'', ''.hidden''] = mset [''.hidden'', ''bulk'', ''junk'']"
    by (simp add: add_mset_commute)
  have h4: "\<forall>s. is_unknown (WindType example_ext s) = is_unknown (WindType example_ext_reordered s)
             \<and> type_as_str (WindType example_ext s) = type_as_str (WindType example_ext_reordered s)
             \<and> mset (alts (WindType example_ext s)) = mset (alts (WindType example_ext_reordered s))"
    by (simp add: example_ext_def example_ext_reordered_def add_mset_commute)
  have h5: "compute_wind_stats example_ext = compute_wind_stats example_ext_reordered"
    by (simp add: example_ext_def example_ext_reordered_def)
  have h6: "compute_emission_rate example_ext = compute_emission_rate example_ext_reordered"
    by (simp add: example_ext_def example_ext_reordered_def)
  have v: "fst (process_plume example_ext_reordered
       [(''Candidate ID'', PStr ''001''), (''IME (kg)'', PStr ''120.5'')]
       ''winds'' (PInt (- 9999)) None) =
     Inr [(''Candidate ID'', PStr ''001''), (''IME (kg)'', PStr ''120.5''),
          (''bulk_wind'', PInt 1000), (''bulk_rate'', PInt (- 9999))]"
    by (simp add: process_plume_def example_ext_reordered_def startswith_dot_def log_msg_def
          Let_def path_join_def dict_update_def)
  show ?thesis
    by (intro conjI) (rule process_plume_deterministic [OF h1 h2 h3 h4 h5 h6], rule v)
qed

lemma alts_loop_logger:
  "\<forall>p d f t a l. compute_wind_stats ext p d f t a l = compute_wind_stats ext p d f t a None \<Longrightarrow>
     alts_loop ext d fill t logger as plume = alts_loop ext d fill t None as plume"
proof (induction as arbitrary: plume)
  case Nil
  then show ?case by simp
next
  case (Cons a as)
  from Cons.prems have eq: "compute_wind_stats ext plume d fill t a logger =
      compute_wind_stats ext plume d fill t a None" by blast
  show ?case
    by (simp add: eq Cons.IH [OF Cons.prems] split: sum.splits)
qed

lemma subdirs_loop_logger:
  assumes "\<forall>p d f t a l. compute_wind_stats ext p d f t a l = compute_wind_stats ext p d f t a None"
    and "\<forall>p t f l. compute_emission_rate ext p t f l = compute_emission_rate ext p t f None"
  shows "fst (subdirs_loop ext winds_dir fill subdirs plume es logger) =
         fst (subdirs_loop ext winds_dir fill subdirs plume es None)"
proof (induction subdirs arbitrary: plume es logger)
  case Nil
  then show ?case by simp
next
  case (Cons s subdirs)
  let ?l1 = "log_msg logger INFO ''processing for winds in {}'' (ArgStr s)"
  have n: "log_msg None INFO ''processing for winds in {}'' (ArgStr s) = None"
    by (simp add: log_msg_def)
  have a: "\<And>d t p. alts_loop ext d fill t ?l1 (sort (alts (WindType ext s))) p =
      alts_loop ext d fill t None (sort (alts (WindType ext s))) p"
    using assms(1) by (rule alts_loop_logger)
  have e: "\<And>p t. compute_emission_rate ext p t fill ?l1 = compute_emission_rate ext p t fill None"
    using assms(2) by blast
  have ih: "\<And>p es. fst (subdirs_loop ext winds_dir fill subdirs p es ?l1) =
      fst (subdirs_loop ext winds_dir fill subdirs p es None)"
    by (rule Cons.IH)
  show ?case
    by (simp add: Let_def n a e ih split: sum.splits)
qed

lemma process_plume_logger:
  assumes "\<forall>p d f t a l. compute_wind_stats ext p d f t a l = compute_wind_stats ext p d f t a None"
    and "\<forall>p t f l. compute_emission_rate ext p t f l = compute_emission_rate ext p t f None"
  shows "fst (process_plume ext plume winds_dir fill logger) =
         fst (process_plume ext plume winds_dir fill None)"
proof (cases "listdir ext winds_dir")
  case (Inl err)
  then show ?thesis by (simp add: process_plume_def)
next
  case (Inr names)
  let ?subdirs = "sort (filter (\<lambda>f. \<not> startswith_dot f) names)"
  let ?l0 = "log_msg (log_msg logger WARNING ''processing plume {}'' (ArgPlume plume))
                    INFO ''{}'' (ArgPlume plume)"
  have n: "log_msg (log_msg None WARNING ''processing plume {}'' (ArgPlume plume))
                    INFO ''{}'' (ArgPlume plume) = None"
    by (simp add: log_msg_def)
  have eq: "fst (subdirs_loop ext winds_dir fill ?subdirs plume [] ?l0) =
      fst (subdirs_loop ext winds_dir fill ?subdirs plume [] None)"
    using assms by (rule subdirs_loop_logger)
  obtain r1 l1 where s1: "subdirs_loop ext winds_dir fill ?subdirs plume [] ?l0 = (r1, l1)"
    by (cases "subdirs_loop ext winds_dir fill ?subdirs plume [] ?l0")
  obtain r2 l2 where s2: "subdirs_loop ext winds_dir fill ?subdirs plume [] None = (r2, l2)"
    by (cases "subdirs_loop ext winds_dir fill ?subdirs plume [] None")
  from eq s1 s2 have "r1 = r2" by simp
  then show ?thesis
    using Inr s1 s2 by (simp add: process_plume_def n Let_def split: sum.splits prod.splits)
qed

lemma process_each_logger:
  assumes "\<forall>p d f t a l. compute_wind_stats ext p d f t a l = compute_wind_stats ext p d f t a None"
    and "\<forall>p t f l. compute_emission_rate ext p t f l = compute_emission_rate ext p t f None"
  shows "fst (process_each ext winds_dir fill plumes logger) =
         fst (process_each ext winds_dir fill plumes None)"
proof (induction plumes arbitrary: logger)
  case Nil
  then show ?case by simp
next
  case (Cons p plumes)
  obtain r1 l1 where s1: "process_plume ext p winds_dir fill logger = (r1, l1)"
    by (cases "process_plume ext p winds_dir fill logger")
  obtain r2 l2 where s2: "process_plume ext p winds_dir fill None = (r2, l2)"
    by (cases "process_plume ext p winds_dir fill None")
  obtain q1 m1 where t1: "process_each ext winds_dir fill plumes l1 = (q1, m1)"
    by (cases "process_each ext winds_dir fill plumes l1")
  obtain q2 m2 where t2: "process_each ext winds_dir fill plumes l2 = (q2, m2)"
    by (cases "process_each ext winds_dir fill plumes l2")
  have r: "r1 = r2"
    using process_plume_logger [OF assms, of p winds_dir fill logger] s1 s2 by simp
  have q: "q1 = q2"
    using Cons.IH [of l1] Cons.IH [of l2] t1 t2 by simp
  show ?case
    by (simp add: s1 s2 t1 t2 r q split: sum.splits)
qed

section \<open>The logger is observational\<close>

lemma fst_result_case:
  "fst (case x of (Inl err, l) \<Rightarrow> (Inl err, l) | (Inr v, l) \<Rightarrow> (Inr v, g l v)) = fst x"
  by (cases x; cases "fst x") auto

lemma process_plumes_fst:
  "fst (process_plumes ext csv fs flist winds_dir fill minppmm_key logger) =
     (case load_plumes csv fs minppmm_key flist of
        Inl err \<Rightarrow> Inl err
      | Inr plumes \<Rightarrow>
          (case plumes of
             [] \<Rightarrow> Inl IndexError
           | first # _ \<Rightarrow>
               (case dict_keys first of
                  [] \<Rightarrow> Inl IndexError
                | sort_by_key # _ \<Rightarrow>
                    (case py_sorted sort_by_key plumes of
                       Inl err \<Rightarrow> Inl err
                     | Inr sorted_plumes \<Rightarrow>
                         fst (process_each ext winds_dir fill sorted_plumes
                                (log_msg (log_msg logger INFO ''flist={}'' (ArgStrs flist))
                                   INFO ''plumes={}'' (ArgPlumes sorted_plumes)))))))"
  by (simp add: process_plumes_def Let_def fst_result_case split: sum.splits list.splits)

lemma process_plumes_logger:
  assumes "\<forall>p d f t a l. compute_wind_stats ext p d f t a l = compute_wind_stats ext p d f t a None"
    and "\<forall>p t f l. compute_emission_rate ext p t f l = compute_emission_rate ext p t f None"
  shows "fst (process_plumes ext csv fs flist winds_dir fill minppmm_key logger) =
         fst (process_plumes ext csv fs flist winds_dir fill minppmm_key None)"
proof -
  have "\<And>ps l. fst (process_each ext winds_dir fill ps l) =
      fst (process_each ext winds_dir fill ps None)"
    using assms by (rule process_each_logger)
  then have "\<And>ps l l'. fst (process_each ext winds_dir fill ps l) =
      fst (process_each ext winds_dir fill ps l')"
    by metis
  then show ?thesis
    unfolding process_plumes_fst
    by (auto split: sum.splits list.splits)
qed

lemma sort_plumes_logger:
  "fst (sort_plumes plumes sort_by_key logger) = fst (sort_plumes plumes sort_by_key None)"
  by (simp add: sort_plumes_def split: option.splits list.splits)

lemma write_plumes_logger:
  "raised (write_plumes csv fs ops plumes fname logger) =
     raised (write_plumes csv fs ops plumes fname None)
   \<and> files (write_plumes csv fs ops plumes fname logger) =
     files (write_plumes csv fs ops plumes fname None)
   \<and> trace (write_plumes csv fs ops plumes fname logger) =
     trace (write_plumes csv fs ops plumes fname None)"
proof (cases plumes)
  case Nil
  then show ?thesis by (simp add: write_plumes_def)
next
  case (Cons p ps)
  then have "plumes \<noteq> []" by simp
  then show ?thesis
    by (simp add: write_plumes_nonempty write_rows_fst del: write_rows.simps)
qed

lemma read_and_backup_logger:
  "read_and_backup csv fs plumes fname logger = (merged, fs1, ops, logger1) \<Longrightarrow>
     \<exists>l. read_and_backup csv fs plumes fname None = (merged, fs1, ops, l)"
  by (auto simp: read_and_backup_def split: option.splits)

lemma insert_plumes_in_file_logger:
  "raised (insert_plumes_in_file csv fs plumes fname sort_by_key logger) =
     raised (insert_plumes_in_file csv fs plumes fname sort_by_key None)
   \<and> files (insert_plumes_in_file csv fs plumes fname sort_by_key logger) =
     files (insert_plumes_in_file csv fs plumes fname sort_by_key None)
   \<and> trace (insert_plumes_in_file csv fs plumes fname sort_by_key logger) =
     trace (insert_plumes_in_file csv fs plumes fname sort_by_key None)"
proof (cases "plumes = []")
  case True
  then show ?thesis by (simp add: insert_plumes_in_file_def)
next
  case False
  obtain merged fs1 ops l1 where rb:
    "read_and_backup csv fs plumes fname logger = (merged, fs1, ops, l1)"
    by (cases "read_and_backup csv fs plumes fname logger") auto
  from read_and_backup_logger [OF rb] obtain l1' where rb':
    "read_and_backup csv fs plumes fname None = (merged, fs1, ops, l1')"
    by blast
  obtain res l2 where sp: "sort_plumes merged sort_by_key l1 = (res, l2)"
    by (cases "sort_plumes merged sort_by_key l1")
  obtain res' l2' where sp': "sort_plumes merged sort_by_key l1' = (res', l2')"
    by (cases "sort_plumes merged sort_by_key l1'")
  have r: "res' = res"
    using sort_plumes_logger [of merged sort_by_key l1]
      sort_plumes_logger [of merged sort_by_key l1'] sp sp' by simp
  note ins = insert_nonempty [OF False rb, of sort_by_key]
  note ins' = insert_nonempty [OF False rb', of sort_by_key]
  show ?thesis
  proof (cases res)
    case (Inl err)
    then show ?thesis by (simp add: ins ins' sp sp' r)
  next
    case (Inr final)
    then show ?thesis
      using write_plumes_logger [of csv fs1 ops final fname l2]
        write_plumes_logger [of csv fs1 ops final fname l2']
      by (simp add: ins ins' sp sp' r)
  qed
qed

text \<open>
  Claim C9. With statistics functions whose result is the same with and without a
  logger, the result of \<open>process_plume\<close> and of \<open>process_plumes\<close> (the records or the
  exception) and the outcome of \<open>insert_plumes_in_file\<close> (the exception, the files and
  the file-system calls) are the same with \<^verbatim>\<open>logger=None\<close> as with a logger.
\<close>

theorem logger_is_observational:
  assumes "\<forall>p d f t a l. compute_wind_stats ext p d f t a l = compute_wind_stats ext p d f t a None"
    and "\<forall>p t f l. compute_emission_rate ext p t f l = compute_emission_rate ext p t f None"
  shows "fst (process_plume ext plume winds_dir fill (Some l)) =
         fst (process_plume ext plume winds_dir fill None)
    \<and> fst (process_plumes ext csv fs flist winds_dir fill minppmm_key (Some l)) =
      fst (process_plumes ext csv fs flist winds_dir fill minppmm_key None)
    \<and> raised (insert_plumes_in_file csv fs plumes fname sort_by_key (Some l)) =
      raised (insert_plumes_in_file csv fs plumes fname sort_by_key None)
    \<and> files (insert_plumes_in_file csv fs plumes fname sort_by_key (Some l)) =
      files (insert_plumes_in_file csv fs plumes fname sort_by_key None)
    \<and> trace (insert_plumes_in_file csv fs plumes fname sort_by_key (Some l)) =
      trace (insert_plumes_in_file csv fs plumes fname sort_by_key None)"
proof (intro conjI)
  show "fst (process_plume ext plume winds_dir fill (Some l)) =
         fst (process_plume ext plume winds_dir fill None)"
    using assms by (rule process_plume_logger)
  show "fst (process_plumes ext csv fs flist winds_dir fill minppmm_key (Some l)) =
      fst (process_plumes ext csv fs flist winds_dir fill minppmm_key None)"
    using assms by (rule process_plumes_logger)
  show "raised (insert_plumes_in_file csv fs plumes fname sort_by_key (Some l)) =
      raised (insert_plumes_in_file csv fs plumes fname sort_by_key None)"
    using insert_plumes_in_file_logger by blast
  show "files (insert_plumes_in_file csv fs plumes fname sort_by_key (Some l)) =
      files (insert_plumes_in_file csv fs plumes fname sort_by_key None)"
    using insert_plumes_in_file_logger by blast
  show "trace (insert_plumes_in_file csv fs plumes fname sort_by_key (Some l)) =
      trace (insert_plumes_in_file csv fs plumes fname sort_by_key None)"
    using insert_plumes_in_file_logger by blast
qed

theorem logger_is_observational_witness:
  "fst (process_plume example_ext [(''Candidate ID'', PStr ''001'')] ''winds'' (PInt (- 9999))
          (Some [])) =
   fst (process_plume example_ext [(''Candidate ID'', PStr ''001'')] ''winds'' (PInt (- 9999)) None)
   \<and> fst (process_plumes example_ext example_csv example_fs [''ime_minppmm1000.csv''] ''winds''
          (PInt (- 9999)) ''Minimum Threshold (ppmm)'' (Some [])) =
     fst (process_plumes example_ext example_csv example_fs [''ime_minppmm1000.csv''] ''winds''
          (PInt (- 9999)) ''Minimum Threshold (ppmm)'' None)
   \<and> raised (insert_plumes_in_file example_csv example_fs [[(''Candidate ID'', PStr ''001'')]]
          ''out.csv'' (Some ''Candidate ID'') (Some [])) =
     raised (insert_plumes_in_file example_csv example_fs [[(''Candidate ID'', PStr ''001'')]]
          ''out.csv'' (Some ''Candidate ID'') None)
   \<and> files (insert_plumes_in_file example_csv example_fs [[(''Candidate ID'', PStr ''001'')]]
          ''out.csv'' (Some ''Candidate ID'') (Some [])) =
     files (insert_plumes_in_file example_csv example_fs [[(''Candidate ID'', PStr ''001'')]]
          ''out.csv'' (Some ''Candidate ID'') None)
   \<and> trace (insert_plumes_in_file example_csv example_fs [[(''Candidate ID'', PStr ''001'')]]
          ''out.csv'' (Some ''Candidate ID'') (Some [])) =
     trace (insert_plumes_in_file example_csv example_fs [[(''Candidate ID'', PStr ''001'')]]
          ''out.csv'' (Some ''Candidate ID'') None)"
proof -
  have h1: "\<forall>p d f t a l. compute_wind_stats example_ext p d f t a l =
      compute_wind_stats example_ext p d f t a None"
    by (simp add: example_ext_def)
  have h2: "\<forall>p t f l. compute_emission_rate example_ext p t f l =
      compute_emission_rate example_ext p t f None"
    by (simp add: example_ext_def)
  show ?thesis
    by (rule logger_is_observational [OF h1 h2])
qed

section \<open>The loader\<close>

text \<open>
  Claim C6, as amended. When the files load into at least one record and every loaded
  record has a string under the first field name of the first loaded record,
  \<open>process_plumes\<close> enriches the loaded list sorted, stably, by the value under that field
  name: the key is the first key of the first record, whatever its name.
\<close>

theorem process_plumes_sorts_by_first_field:
  assumes "load_plumes csv fs minppmm_key flist = Inr (first # rest)"
    and "\<forall>p\<in>set (first # rest). \<exists>s. map_of p (fst (hd first)) = Some (PStr s)"
  shows "fst (process_plumes ext csv fs flist winds_dir fill minppmm_key logger) =
           fst (process_each ext winds_dir fill
                  (sort_key (str_key (fst (hd first))) (first # rest))
                  (log_msg (log_msg logger INFO ''flist={}'' (ArgStrs flist)) INFO ''plumes={}''
                     (ArgPlumes (sort_key (str_key (fst (hd first))) (first # rest)))))
    \<and> sorted (map (str_key (fst (hd first))) (sort_key (str_key (fst (hd first))) (first # rest)))
    \<and> mset (sort_key (str_key (fst (hd first))) (first # rest)) = mset (first # rest)
    \<and> (\<forall>v. filter (\<lambda>p. str_key (fst (hd first)) p = v)
               (sort_key (str_key (fst (hd first))) (first # rest)) =
             filter (\<lambda>p. str_key (fst (hd first)) p = v) (first # rest))"
proof -
  let ?k = "fst (hd first)"
  have "\<exists>s. map_of first ?k = Some (PStr s)" using assms(2) by simp
  then have "first \<noteq> []" by auto
  then obtain kv more_fields where f: "first = kv # more_fields" by (cases first) auto
  then have keys: "dict_keys first = ?k # map fst more_fields"
    by (simp add: dict_keys_def)
  have srt: "py_sorted ?k (first # rest) = Inr (sort_key (str_key ?k) (first # rest))"
    using assms(2) by (rule py_sorted_strings)
  have "fst (process_plumes ext csv fs flist winds_dir fill minppmm_key logger) =
           fst (process_each ext winds_dir fill
                  (sort_key (str_key ?k) (first # rest))
                  (log_msg (log_msg logger INFO ''flist={}'' (ArgStrs flist)) INFO ''plumes={}''
                     (ArgPlumes (sort_key (str_key ?k) (first # rest)))))"
    unfolding process_plumes_fst by (simp only: assms(1) keys srt sum.case list.case)
  moreover have "\<forall>v. filter (\<lambda>p. str_key ?k p = v) (sort_key (str_key ?k) (first # rest)) =
             filter (\<lambda>p. str_key ?k p = v) (first # rest)"
    by (simp only: sort_key_stable) simp
  ultimately show ?thesis
    by (simp only: sorted_sort_key mset_sort) simp
qed

theorem process_plumes_sorts_by_first_field_witness:
  "fst (process_plumes example_ext example_csv example_fs [''ime_minppmm1000.csv''] ''winds''
          (PInt (- 9999)) ''Minimum Threshold (ppmm)'' None) =
     Inr [[(''Candidate ID'', PStr ''001''), (''IME (kg)'', PStr ''120.5''),
           (''Minimum Threshold (ppmm)'', PInt 1000),
           (''bulk_wind'', PInt 1000), (''bulk_rate'', PInt (- 9999))],
          [(''Candidate ID'', PStr ''002''), (''IME (kg)'', PStr ''7.5''),
           (''Minimum Threshold (ppmm)'', PInt 1000),
           (''bulk_wind'', PInt 1000), (''bulk_rate'', PInt (- 9999))]]"
proof -
  let ?first = "[(''Candidate ID'', PStr ''002''), (''IME (kg)'', PStr ''7.5''),
                 (''Minimum Threshold (ppmm)'', PInt 1000)]"
  let ?rest = "[[(''Candidate ID'', PStr ''001''), (''IME (kg)'', PStr ''120.5''),
                 (''Minimum Threshold (ppmm)'', PInt 1000)]]"
  have h1: "load_plumes example_csv example_fs ''Minimum Threshold (ppmm)''
              [''ime_minppmm1000.csv''] = Inr (?first # ?rest)"
    by (simp add: get_minppmm_from_fname_def match_here_def is_digit_def int_of_digits_def
          dict_reader_plus_update_def example_fs_def example_csv_def example_name_def
          dict_update_def)
  have h2: "\<forall>p\<in>set (?first # ?rest). \<exists>s. map_of p (fst (hd ?first)) = Some (PStr s)"
    by simp
  have v: "fst (process_each example_ext ''winds'' (PInt (- 9999))
                  (sort_key (str_key (fst (hd ?first))) (?first # ?rest))
                  (log_msg (log_msg None INFO ''flist={}'' (ArgStrs [''ime_minppmm1000.csv'']))
                     INFO ''plumes={}''
                     (ArgPlumes (sort_key (str_key (fst (hd ?first))) (?first # ?rest))))) =
     Inr [[(''Candidate ID'', PStr ''001''), (''IME (kg)'', PStr ''120.5''),
           (''Minimum Threshold (ppmm)'', PInt 1000),
           (''bulk_wind'', PInt 1000), (''bulk_rate'', PInt (- 9999))],
          [(''Candidate ID'', PStr ''002''), (''IME (kg)'', PStr ''7.5''),
           (''Minimum Threshold (ppmm)'', PInt 1000),
           (''bulk_wind'', PInt 1000), (''bulk_rate'', PInt (- 9999))]]"
    by (simp add: str_key_def process_plume_def example_ext_def startswith_dot_def log_msg_def
          Let_def path_join_def dict_update_def)
  show ?thesis
    by (rule trans [OF process_plumes_sorts_by_first_field [OF h1 h2, THEN conjunct1] v])
qed

theorem process_plumes_first_field_key_error_counterexample:
  "fst (process_plumes example_ext example_csv example_fs_two_headers
          [''a_minppmm1000.csv'', ''b_minppmm500.csv''] ''winds''
          (PInt (- 9999)) ''Minimum Threshold (ppmm)'' None) = Inl KeyError"
  by (simp add: process_plumes_fst get_minppmm_from_fname_def match_here_def is_digit_def
        int_of_digits_def dict_reader_plus_update_def example_fs_two_headers_def
        example_csv_def example_name_def dict_update_def dict_keys_def py_sorted_def)

lemma load_plumes_no_rows:
  "\<forall>f\<in>set flist. (\<exists>n. get_minppmm_from_fname f = Inr n)
        \<and> (\<exists>c. fs f = Some c \<and> dict_reader csv True c = []) \<Longrightarrow>
     load_plumes csv fs minppmm_key flist = Inr []"
  by (induction flist) (auto simp: dict_reader_plus_update_def)

lemma process_each_length:
  "process_each ext winds_dir fill plumes logger = (Inr out, logger') \<Longrightarrow>
     length out = length plumes"
proof (induction plumes arbitrary: logger out logger')
  case Nil
  then show ?case by simp
next
  case (Cons p plumes)
  then show ?case
    by (auto split: prod.splits sum.splits)
qed

lemma py_sorted_length:
  "py_sorted k ds = Inr r \<Longrightarrow> length r = length ds"
  using py_sorted_mset mset_eq_length by blast

text \<open>
  Claim C10. When every file name carries a threshold and every file exists and has no
  data row, \<open>process_plumes\<close> raises \<^verbatim>\<open>IndexError\<close>; and on no input at all does it
  return an empty list.
\<close>

theorem process_plumes_empty_load:
  "((\<forall>f\<in>set flist. (\<exists>n. get_minppmm_from_fname f = Inr n)
        \<and> (\<exists>c. fs f = Some c \<and> dict_reader csv True c = [])) \<longrightarrow>
      fst (process_plumes ext csv fs flist winds_dir fill minppmm_key logger) = Inl IndexError)
   \<and> fst (process_plumes ext csv fs flist winds_dir fill minppmm_key logger) \<noteq> Inr []"
proof (intro conjI impI)
  assume "\<forall>f\<in>set flist. (\<exists>n. get_minppmm_from_fname f = Inr n)
        \<and> (\<exists>c. fs f = Some c \<and> dict_reader csv True c = [])"
  then have "load_plumes csv fs minppmm_key flist = Inr []"
    by (rule load_plumes_no_rows)
  then show "fst (process_plumes ext csv fs flist winds_dir fill minppmm_key logger) = Inl IndexError"
    by (simp add: process_plumes_fst)
next
  show "fst (process_plumes ext csv fs flist winds_dir fill minppmm_key logger) \<noteq> Inr []"
  proof
    assume a: "fst (process_plumes ext csv fs flist winds_dir fill minppmm_key logger) = Inr []"
    then obtain first rest k ks sorted_plumes where
      ld: "load_plumes csv fs minppmm_key flist = Inr (first # rest)"
      and srt: "py_sorted k (first # rest) = Inr sorted_plumes"
      and pe: "fst (process_each ext winds_dir fill sorted_plumes
                 (log_msg (log_msg logger INFO ''flist={}'' (ArgStrs flist))
                    INFO ''plumes={}'' (ArgPlumes sorted_plumes))) = Inr []"
      unfolding process_plumes_fst by (auto split: sum.splits list.splits)
    from pe obtain lg where "process_each ext winds_dir fill sorted_plumes
                 (log_msg (log_msg logger INFO ''flist={}'' (ArgStrs flist))
                    INFO ''plumes={}'' (ArgPlumes sorted_plumes)) = (Inr [], lg)"
      by (metis prod.collapse)
    then have "length sorted_plumes = 0"
      using process_each_length by fastforce
    moreover have "length sorted_plumes = length (first # rest)"
      using srt by (rule py_sorted_length)
    ultimately show False by simp
  qed
qed

theorem process_plumes_empty_load_witness:
  "fst (process_plumes example_ext example_csv example_fs [''empty_minppmm500.csv''] ''winds''
          (PInt (- 9999)) ''Minimum Threshold (ppmm)'' None) = Inl IndexError"
proof -
  have "get_minppmm_from_fname ''empty_minppmm500.csv'' = Inr 500"
    by (simp add: get_minppmm_from_fname_def match_here_def is_digit_def int_of_digits_def)
  then have h: "\<forall>f\<in>set [''empty_minppmm500.csv''].
        (\<exists>n. get_minppmm_from_fname f = Inr n)
        \<and> (\<exists>c. example_fs f = Some c \<and> dict_reader example_csv True c = [])"
    by (simp add: example_fs_def example_csv_def)
  show ?thesis
    by (rule process_plumes_empty_load [THEN conjunct1, THEN mp, OF h])
qed

end
